theory Spec2Isabelle
  imports Complex_Main
begin

section \<open>Values, rows and the vector store client\<close>

text \<open>
  The module \<^verbatim>\<open>electron/main/database/Table.ts\<close> wraps a LanceDB table. A JavaScript
  exception is a value of type \<open>error\<close>: \<open>TypeError\<close> is what the runtime raises when a
  property of \<^verbatim>\<open>undefined\<close> or \<^verbatim>\<open>null\<close> is read, \<open>Thrown\<close> is any exception
  raised by an external collaborator (the store client, a progress callback, the file
  lister).
\<close>

datatype error = TypeError | Thrown string

text \<open>
  A raw row is a \<^verbatim>\<open>Record<string, unknown>\<close>: an object with string keys, kept as an
  association list in insertion order. A \<^verbatim>\<open>Date\<close> is its number of milliseconds.
\<close>

datatype jsval =
    JUndefined
  | JString string
  | JNumber int
  | JVector "rat list"
  | JDate nat

type_synonym row = "(string \<times> jsval) list"

text \<open>The operator \<^verbatim>\<open>key in record\<close> and the property read \<^verbatim>\<open>record.key\<close>.\<close>

definition has_key :: "string \<Rightarrow> row \<Rightarrow> bool" where
  "has_key k r = (map_of r k \<noteq> None)"

definition get_prop :: "row \<Rightarrow> string \<Rightarrow> jsval" where
  "get_prop r k = (case map_of r k of None \<Rightarrow> JUndefined | Some v \<Rightarrow> v)"

text \<open>
  Modelled from the spec: the enum \<^verbatim>\<open>DatabaseFields\<close> of \<^verbatim>\<open>./Schema\<close> is not part of
  the sources at hand. The spec names five logical field identifiers (note path, vector,
  content, sub-note index, time added); their string values are a parameter \<open>F\<close> of
  every function that reads the enum.
\<close>

record DatabaseFields =
  NOTE_PATH :: string
  VECTOR :: string
  CONTENT :: string
  SUB_NOTE_INDEX :: string
  TIME_ADDED :: string

text \<open>
  The query builder of the store client:
  \<^verbatim>\<open>table.search(key).limit(n).filter(expr)\<close>. The key is a text or a vector.
\<close>

datatype search_key = Text string | Vector "rat list"

record Query =
  q_key :: search_key
  q_limit :: "nat option"
  q_filter :: "string option"

text \<open>
  The store client (package \<^verbatim>\<open>vectordb\<close>) is external. Its four operations are a
  parameter \<open>L\<close>: each takes the store's state \<open>'st\<close> and gives back either an
  exception or a value, together with the store's next state.
\<close>

record 'st Lance =
  lance_add :: "row list \<Rightarrow> 'st \<Rightarrow> (error + unit) \<times> 'st"
  lance_delete :: "string \<Rightarrow> 'st \<Rightarrow> (error + unit) \<times> 'st"
  lance_execute :: "Query \<Rightarrow> 'st \<Rightarrow> (error + row list) \<times> 'st"
  lance_countRows :: "'st \<Rightarrow> (error + nat) \<times> 'st"

text \<open>
  What the module does to the outside is recorded in a trace: every call that reaches
  the store, with its outcome (\<open>None\<close> when it returned, \<open>Some e\<close> when it raised
  \<open>e\<close>), and every invocation of a progress callback, with its argument. The argument
  is the quotient of two small integers; it is kept as a rational, which orders and
  compares as the correctly rounded double does for chunk counts below \<open>2^53\<close>.
  Console output is not modelled.
\<close>

datatype call = Add "row list" | Delete string | Execute Query | CountRows

datatype event = Store call "error option" | Progress rat

text \<open>
  The class \<^verbatim>\<open>RagnoteTable\<close>. Field \<open>table\<close> is \<^verbatim>\<open>undefined\<close> (\<open>None\<close>) until
  \<^verbatim>\<open>initialize\<close> has run; afterwards it holds the store. The fields \<^verbatim>\<open>embedFun\<close>,
  \<^verbatim>\<open>userDirectory\<close> and \<^verbatim>\<open>dbConnection\<close> are written by \<^verbatim>\<open>initialize\<close> only and never
  read in this module. \<open>trace\<close> is the ghost record of effects.
\<close>

record 'st RagnoteTable =
  table :: "'st option"
  trace :: "event list"

definition err_of :: "error + 'a \<Rightarrow> error option" where
  "err_of r = (case r of Inl e \<Rightarrow> Some e | Inr _ \<Rightarrow> None)"

text \<open>
  One method call on \<^verbatim>\<open>this.table\<close>: reading a method of an undefined table raises
  \<open>TypeError\<close> and nothing reaches the store; otherwise the call is issued, recorded, and
  its result is handed back.
\<close>

definition store_call ::
  "call \<Rightarrow> ('st \<Rightarrow> (error + 'a) \<times> 'st) \<Rightarrow> 'st RagnoteTable \<Rightarrow> (error + 'a) \<times> 'st RagnoteTable" where
  "store_call c f t =
     (case table t of
        None \<Rightarrow> (Inl TypeError, t)
      | Some st \<Rightarrow>
          (case f st of
             (r, st') \<Rightarrow> (r, t\<lparr>table := Some st', trace := trace t @ [Store c (err_of r)]\<rparr>)))"

section \<open>The Batch Writer: \<^verbatim>\<open>RagnoteTable.add\<close>\<close>

definition chunkSize :: nat where
  "chunkSize = 50"

text \<open>\<^verbatim>\<open>Array.prototype.slice(s, e)\<close> for \<open>0 \<le> s \<le> e\<close>; both ends are clamped.\<close>

definition slice :: "'a list \<Rightarrow> nat \<Rightarrow> nat \<Rightarrow> 'a list" where
  "slice xs s e = take (e - s) (drop s xs)"

text \<open>
  The first loop of \<^verbatim>\<open>add\<close>:
  \<^verbatim>\<open>for (let i = 0; i < recordEntry.length; i += chunkSize) chunks.push(recordEntry.slice(i, i + chunkSize))\<close>.
\<close>

function chunk_loop :: "'a list \<Rightarrow> nat \<Rightarrow> 'a list list" where
  "chunk_loop recordEntry i =
     (if i < length recordEntry
      then slice recordEntry i (i + chunkSize) # chunk_loop recordEntry (i + chunkSize)
      else [])"
  by pat_completeness auto
termination
  by (relation "measure (\<lambda>(recordEntry, i). length recordEntry - i)")
     (auto simp: chunkSize_def)

declare chunk_loop.simps [simp del]

text \<open>
  A progress callback is \<^verbatim>\<open>(progress: number) => void\<close>; it may raise. It is a function
  from the progress to the exception it raises, if any. The parameter \<open>onProgress\<close> is
  optional: \<open>None\<close> is \<^verbatim>\<open>undefined\<close>.
\<close>

type_synonym callback = "rat \<Rightarrow> error option"

text \<open>
  The second loop of \<^verbatim>\<open>add\<close>, over the chunks: the store call is inside
  \<^verbatim>\<open>try { ... } catch (error) { console.error(...) }\<close>, so its result is dropped; the
  index is advanced and the callback, if any, is invoked outside the \<^verbatim>\<open>try\<close>.
\<close>

fun add_loop ::
  "'st Lance \<Rightarrow> callback option \<Rightarrow> nat \<Rightarrow> row list list \<Rightarrow> nat \<Rightarrow> 'st RagnoteTable
     \<Rightarrow> (error + unit) \<times> 'st RagnoteTable" where
  "add_loop L onProgress totalChunks [] index t = (Inr (), t)"
| "add_loop L onProgress totalChunks (chunk # rest) index t =
     (case store_call (Add chunk) (lance_add L chunk) t of
        (_, t1) \<Rightarrow>
          (let index' = index + 1;
               progress = of_nat index' / of_nat totalChunks
           in case onProgress of
                None \<Rightarrow> add_loop L onProgress totalChunks rest index' t1
              | Some cb \<Rightarrow>
                  (let t2 = t1\<lparr>trace := trace t1 @ [Progress progress]\<rparr>
                   in case cb progress of
                        Some e \<Rightarrow> (Inl e, t2)
                      | None \<Rightarrow> add_loop L onProgress totalChunks rest index' t2)))"

definition RagnoteTable_add ::
  "'st Lance \<Rightarrow> row list \<Rightarrow> callback option \<Rightarrow> 'st RagnoteTable
     \<Rightarrow> (error + unit) \<times> 'st RagnoteTable" where
  "RagnoteTable_add L data onProgress t =
     (let chunks = chunk_loop data 0;
          totalChunks = length chunks
      in add_loop L onProgress totalChunks chunks 0 t)"

section \<open>The other methods of the Table Facade\<close>

text \<open>
  \<^verbatim>\<open>initialize\<close>. Modelled from the spec: the functions \<^verbatim>\<open>createEmbeddingFunction\<close>
  (\<^verbatim>\<open>./Transformers\<close>) and \<^verbatim>\<open>GetOrCreateLanceTable\<close> (\<^verbatim>\<open>./Lance\<close>) are not part of
  the sources at hand; they are parameters, and either may raise. The table handle is
  assigned last, so it stays undefined when one of them raises.
\<close>

definition initialize ::
  "(string \<Rightarrow> string \<Rightarrow> error + 'emb) \<Rightarrow> ('conn \<Rightarrow> 'emb \<Rightarrow> string \<Rightarrow> error + 'st)
     \<Rightarrow> 'conn \<Rightarrow> string \<Rightarrow> 'st RagnoteTable \<Rightarrow> (error + unit) \<times> 'st RagnoteTable" where
  "initialize createEmbeddingFunction GetOrCreateLanceTable dbConnection userDirectory t =
     (case createEmbeddingFunction ''Xenova/bge-base-en-v1.5'' ''content'' of
        Inl e \<Rightarrow> (Inl e, t)
      | Inr embedFun \<Rightarrow>
          (case GetOrCreateLanceTable dbConnection embedFun userDirectory of
             Inl e \<Rightarrow> (Inl e, t)
           | Inr tbl \<Rightarrow> (Inr (), t\<lparr>table := Some tbl\<rparr>)))"

definition RagnoteTable_delete ::
  "'st Lance \<Rightarrow> string \<Rightarrow> 'st RagnoteTable \<Rightarrow> (error + unit) \<times> 'st RagnoteTable" where
  "RagnoteTable_delete L flt t = store_call (Delete flt) (lance_delete L flt) t"

text \<open>
  \<^verbatim>\<open>convertRawDBResultToRagnoteDBEntry\<close>: the record itself when it carries all five
  keys, \<^verbatim>\<open>null\<close> (\<open>None\<close>) otherwise.
\<close>

definition convertRawDBResultToRagnoteDBEntry :: "DatabaseFields \<Rightarrow> row \<Rightarrow> row option" where
  "convertRawDBResultToRagnoteDBEntry F record =
     (if has_key (NOTE_PATH F) record \<and>
         has_key (VECTOR F) record \<and>
         has_key (CONTENT F) record \<and>
         has_key (SUB_NOTE_INDEX F) record \<and>
         has_key (TIME_ADDED F) record
      then Some record
      else None)"

text \<open>
  \<^verbatim>\<open>search\<close>: the filter is applied only when it is truthy, that is neither
  \<^verbatim>\<open>undefined\<close> nor the empty string. The raw results are mapped through the converter
  and returned as they are (the cast \<^verbatim>\<open>as RagnoteDBEntry[]\<close> does nothing at run
  time), so the result is a list of rows and \<^verbatim>\<open>null\<close>s.
\<close>

definition RagnoteTable_search ::
  "'st Lance \<Rightarrow> DatabaseFields \<Rightarrow> string \<Rightarrow> nat \<Rightarrow> string option \<Rightarrow> 'st RagnoteTable
     \<Rightarrow> (error + row option list) \<times> 'st RagnoteTable" where
  "RagnoteTable_search L F query limit flt t =
     (let lanceQuery = \<lparr>q_key = Text query, q_limit = Some limit, q_filter = None\<rparr>;
          lanceQuery' = (case flt of
                           None \<Rightarrow> lanceQuery
                         | Some f \<Rightarrow> if f \<noteq> [] then lanceQuery\<lparr>q_filter := Some f\<rparr>
                                     else lanceQuery)
      in case store_call (Execute lanceQuery') (lance_execute L lanceQuery') t of
           (Inl e, t') \<Rightarrow> (Inl e, t')
         | (Inr rawResults, t') \<Rightarrow>
             (Inr (map (convertRawDBResultToRagnoteDBEntry F) rawResults), t'))"

text \<open>
  \<^verbatim>\<open>filter\<close>: a query on the placeholder vector \<^verbatim>\<open>Array(768).fill(1)\<close>. The limit
  has the default 10 in the source; every caller in this module passes it.
\<close>

definition RagnoteTable_filter ::
  "'st Lance \<Rightarrow> DatabaseFields \<Rightarrow> string \<Rightarrow> nat \<Rightarrow> 'st RagnoteTable
     \<Rightarrow> (error + row option list) \<times> 'st RagnoteTable" where
  "RagnoteTable_filter L F filterString limit t =
     (let q = \<lparr>q_key = Vector (replicate 768 1), q_limit = Some limit,
               q_filter = Some filterString\<rparr>
      in case store_call (Execute q) (lance_execute L q) t of
           (Inl e, t') \<Rightarrow> (Inl e, t')
         | (Inr rawResults, t') \<Rightarrow>
             (Inr (map (convertRawDBResultToRagnoteDBEntry F) rawResults), t'))"

definition RagnoteTable_countRows ::
  "'st Lance \<Rightarrow> 'st RagnoteTable \<Rightarrow> (error + nat) \<times> 'st RagnoteTable" where
  "RagnoteTable_countRows L t = store_call CountRows (lance_countRows L) t"

section \<open>Reconciliation\<close>

text \<open>The characters \<^verbatim>\<open>'\<close> and \<^verbatim>\<open>"\<close> of the filter expressions.\<close>

definition squote :: char where
  "squote = CHR 0x27"

definition dquote :: char where
  "dquote = CHR 0x22"

definition content_nonempty_filter :: "DatabaseFields \<Rightarrow> string" where
  "content_nonempty_filter F = CONTENT F @ '' != '' @ [squote, squote]"

definition content_empty_filter :: "DatabaseFields \<Rightarrow> string" where
  "content_empty_filter F = CONTENT F @ '' = '' @ [squote, squote]"

definition getTableAsArray ::
  "'st Lance \<Rightarrow> DatabaseFields \<Rightarrow> 'st RagnoteTable
     \<Rightarrow> (error + row option list) \<times> 'st RagnoteTable" where
  "getTableAsArray L F t =
     (case RagnoteTable_countRows L t of
        (Inl e, t1) \<Rightarrow> (Inl e, t1)
      | (Inr totalRows, t1) \<Rightarrow>
          if totalRows = 0 then (Inr [], t1)
          else
            (case RagnoteTable_filter L F (content_nonempty_filter F) totalRows t1 of
               (Inl e, t2) \<Rightarrow> (Inl e, t2)
             | (Inr nonEmptyResults, t2) \<Rightarrow>
                 (case RagnoteTable_filter L F (content_empty_filter F) totalRows t2 of
                    (Inl e, t3) \<Rightarrow> (Inl e, t3)
                  | (Inr emptyResults, t3) \<Rightarrow> (Inr (nonEmptyResults @ emptyResults), t3))))"

definition path_filter_single :: "DatabaseFields \<Rightarrow> string \<Rightarrow> string" where
  "path_filter_single F filePath = NOTE_PATH F @ '' = '' @ [squote] @ filePath @ [squote]"

definition isFileInDB ::
  "'st Lance \<Rightarrow> DatabaseFields \<Rightarrow> 'st RagnoteTable \<Rightarrow> string \<Rightarrow> nat
     \<Rightarrow> (error + bool) \<times> 'st RagnoteTable" where
  "isFileInDB L F t filePath tableCount =
     (if tableCount = 0 then (Inr False, t)
      else
        (case RagnoteTable_filter L F (path_filter_single F filePath) tableCount t of
           (Inl e, t') \<Rightarrow> (Inl e, t')
         | (Inr results, t') \<Rightarrow> (Inr (length results > 0), t')))"

section \<open>Files and records\<close>

text \<open>
  Modelled from the spec: the type \<^verbatim>\<open>FileInfo\<close> of \<^verbatim>\<open>../Files/Types\<close> and the
  functions \<^verbatim>\<open>GetFilesInfoList\<close> and \<^verbatim>\<open>flattenFileInfoTree\<close> of
  \<^verbatim>\<open>../Files/Filesystem\<close> are not part of the sources at hand. Of a \<^verbatim>\<open>FileInfo\<close> only
  the field \<^verbatim>\<open>path\<close> is read; the two functions are parameters.
\<close>

record FileInfo =
  path :: string

text \<open>
  \<^verbatim>\<open>readFile\<close>: \<^verbatim>\<open>fs.readFileSync\<close> is a parameter that may raise; on an exception the
  content is the empty string.
\<close>

definition readFile :: "(string \<Rightarrow> error + string) \<Rightarrow> string \<Rightarrow> string" where
  "readFile readFileSync filePath =
     (case readFileSync filePath of Inr data \<Rightarrow> data | Inl err \<Rightarrow> [])"

text \<open>
  An object literal of type \<^verbatim>\<open>RagnoteDBEntry\<close> without a vector, with the property names
  of the interface, in the order the source writes them.
\<close>

definition entry :: "string \<Rightarrow> string \<Rightarrow> int \<Rightarrow> nat \<Rightarrow> row" where
  "entry p c i d =
     [(''notepath'', JString p), (''content'', JString c),
      (''subnoteindex'', JNumber i), (''timeadded'', JDate d)]"

text \<open>\<^verbatim>\<open>convertFileTypeToDBType\<close>; \<open>now\<close> is what \<^verbatim>\<open>new Date()\<close> reads.\<close>

definition convertFileTypeToDBType :: "(string \<Rightarrow> error + string) \<Rightarrow> nat \<Rightarrow> FileInfo \<Rightarrow> row" where
  "convertFileTypeToDBType readFileSync now file =
     entry (path file) (readFile readFileSync (path file)) 0 now"

section \<open>Point updates\<close>

definition path_filter_double :: "DatabaseFields \<Rightarrow> string \<Rightarrow> string" where
  "path_filter_double F filePath = NOTE_PATH F @ '' = '' @ [dquote] @ filePath @ [dquote]"



text \<open>\<^verbatim>\<open>updateNoteInTable\<close>; \<open>now\<close> is what \<^verbatim>\<open>new Date()\<close> reads after the delete.\<close>

definition updateNoteInTable ::
  "'st Lance \<Rightarrow> DatabaseFields \<Rightarrow> nat \<Rightarrow> 'st RagnoteTable \<Rightarrow> string \<Rightarrow> string
     \<Rightarrow> (error + unit) \<times> 'st RagnoteTable" where
  "updateNoteInTable L F now dbTable filePath content =
     (case RagnoteTable_delete L (path_filter_double F filePath) dbTable of
        (Inl e, t1) \<Rightarrow> (Inl e, t1)
      | (Inr _, t1) \<Rightarrow>
          (let currentTimestamp = now
           in RagnoteTable_add L [entry filePath content 0 currentTimestamp] None t1))"

section \<open>The Repopulate Orchestrator\<close>

text \<open>
  \<^verbatim>\<open>tableArray.map((x) => x.notepath)\<close>: reading the property of a \<^verbatim>\<open>null\<close> element
  raises \<open>TypeError\<close>.
\<close>

fun notepaths :: "row option list \<Rightarrow> error + jsval list" where
  "notepaths [] = Inr []"
| "notepaths (None # xs) = Inl TypeError"
| "notepaths (Some x # xs) =
     (case notepaths xs of Inl e \<Rightarrow> Inl e | Inr ps \<Rightarrow> Inr (get_prop x ''notepath'' # ps))"

text \<open>
  The records of the files that are not in the table:
  \<^verbatim>\<open>filesInfoList.filter((fileInfo) => !tableArrayPaths.has(fileInfo.path)).map(convertFileTypeToDBType)\<close>.
  \<open>clock i\<close> is what \<^verbatim>\<open>new Date()\<close> reads in the conversion of the \<open>i\<close>-th missing
  file.
\<close>

definition missing_records ::
  "(string \<Rightarrow> error + string) \<Rightarrow> (nat \<Rightarrow> nat) \<Rightarrow> jsval list \<Rightarrow> FileInfo list \<Rightarrow> row list" where
  "missing_records readFileSync clock tableArrayPaths filesInfoList =
     map (\<lambda>(i, file). convertFileTypeToDBType readFileSync (clock i) file)
       (enumerate 0 (filter (\<lambda>fileInfo. JString (path fileInfo) \<notin> set tableArrayPaths)
                       filesInfoList))"

text \<open>
  \<^verbatim>\<open>maybeRePopulateTable\<close>. After the write, a supplied callback is invoked with 1;
  the row count read at the end is only logged.
\<close>

definition maybeRePopulateTable ::
  "'st Lance \<Rightarrow> DatabaseFields \<Rightarrow> (string \<Rightarrow> string list \<Rightarrow> error + FileInfo list)
     \<Rightarrow> (string \<Rightarrow> error + string) \<Rightarrow> (nat \<Rightarrow> nat)
     \<Rightarrow> 'st RagnoteTable \<Rightarrow> string \<Rightarrow> string list \<Rightarrow> callback option
     \<Rightarrow> (error + unit) \<times> 'st RagnoteTable" where
  "maybeRePopulateTable L F GetFilesInfoList readFileSync clock tbl directoryPath
       extensionsToFilterFor onProgress =
     (case GetFilesInfoList directoryPath extensionsToFilterFor of
        Inl e \<Rightarrow> (Inl e, tbl)
      | Inr filesInfoList \<Rightarrow>
          (case getTableAsArray L F tbl of
             (Inl e, t1) \<Rightarrow> (Inl e, t1)
           | (Inr tableArray, t1) \<Rightarrow>
               (case notepaths tableArray of
                  Inl e \<Rightarrow> (Inl e, t1)
                | Inr tableArrayPaths \<Rightarrow>
                    (let filesToAdd = missing_records readFileSync clock tableArrayPaths
                                        filesInfoList
                     in case RagnoteTable_add L filesToAdd onProgress t1 of
                          (Inl e, t2) \<Rightarrow> (Inl e, t2)
                        | (Inr _, t2) \<Rightarrow>
                            (case (case onProgress of
                                     None \<Rightarrow> (None, t2)
                                   | Some cb \<Rightarrow> (cb 1, t2\<lparr>trace := trace t2 @ [Progress 1]\<rparr>)) of
                               (Some e, t3) \<Rightarrow> (Inl e, t3)
                             | (None, t3) \<Rightarrow>
                                 (case RagnoteTable_countRows L t3 of
                                    (Inl e, t4) \<Rightarrow> (Inl e, t4)
                                  | (Inr _, t4) \<Rightarrow> (Inr (), t4)))))))"

section \<open>Observations on a trace\<close>

text \<open>The events a run has appended to the trace.\<close>

definition new_events :: "'st RagnoteTable \<Rightarrow> 'st RagnoteTable \<Rightarrow> event list" where
  "new_events t t' = drop (length (trace t)) (trace t')"

fun store_adds :: "event list \<Rightarrow> row list list" where
  "store_adds [] = []"
| "store_adds (Store (Add chunk) _ # es) = chunk # store_adds es"
| "store_adds (_ # es) = store_adds es"

fun store_queries :: "event list \<Rightarrow> Query list" where
  "store_queries [] = []"
| "store_queries (Store (Execute q) _ # es) = q # store_queries es"
| "store_queries (_ # es) = store_queries es"

fun progress_calls :: "event list \<Rightarrow> rat list" where
  "progress_calls [] = []"
| "progress_calls (Progress p # es) = p # progress_calls es"
| "progress_calls (_ # es) = progress_calls es"

fun add_outcomes :: "event list \<Rightarrow> error option list" where
  "add_outcomes [] = []"
| "add_outcomes (Store (Add chunk) r # es) = r # add_outcomes es"
| "add_outcomes (_ # es) = add_outcomes es"



text \<open>All calls that reached the store, of whatever kind, in order.\<close>

fun store_calls :: "event list \<Rightarrow> call list" where
  "store_calls [] = []"
| "store_calls (Store c r # es) = c # store_calls es"
| "store_calls (Progress p # es) = store_calls es"

text \<open>
  What the store \<open>L\<close> does when the chunks are handed to its \<^verbatim>\<open>add\<close> one after the
  other, starting in state \<open>st\<close>: the outcome of each call, and the state it is left
  in.
\<close>

fun write_outcomes :: "'st Lance \<Rightarrow> row list list \<Rightarrow> 'st \<Rightarrow> error option list" where
  "write_outcomes L [] st = []"
| "write_outcomes L (chunk # rest) st =
     err_of (fst (lance_add L chunk st)) # write_outcomes L rest (snd (lance_add L chunk st))"

definition written :: "'st Lance \<Rightarrow> row list list \<Rightarrow> 'st \<Rightarrow> 'st" where
  "written L chunks st = foldl (\<lambda>s chunk. snd (lance_add L chunk s)) st chunks"

section \<open>A reference store\<close>

text \<open>
  The property names of the interface \<^verbatim>\<open>RagnoteDBEntry\<close>, as the values of the five
  field identifiers.
\<close>

definition std_fields :: DatabaseFields where
  "std_fields = \<lparr>NOTE_PATH = ''notepath'', VECTOR = ''vector'', CONTENT = ''content'',
                  SUB_NOTE_INDEX = ''subnoteindex'', TIME_ADDED = ''timeadded''\<rparr>"

text \<open>
  Modelled from the spec: the store itself (package \<^verbatim>\<open>vectordb\<close>) is an external
  collaborator, known here by its interface only. Statements about what the table holds
  after an operation need a store, so one is written down from that interface. The
  reference store keeps its rows in a list, in insertion order, together with a schedule of
  failures: the next \<^verbatim>\<open>add\<close> raises when the head of the schedule is \<open>True\<close>, and
  writes nothing then. A successful \<^verbatim>\<open>add\<close> appends the rows, each with its vector
  column filled in when it has none (the embedding itself is not modelled).
  \<^verbatim>\<open>delete\<close> removes the rows that match the filter, a query returns the matching rows
  up to its limit, \<^verbatim>\<open>countRows\<close> is the number of rows.

  A filter expression is not parsed: a row matches an expression when the expression is
  the text this module builds for a non-empty content, for an empty content, or for the
  row's own path in single or double quotes. Quoting and escaping inside a path are
  therefore not modelled, and an expression is never refused: the reference store
  stands for a real one on the two content filters and on paths without quote
  characters only. It serves the orchestrator, which sends the content filters alone,
  and the examples; no statement is made about arbitrary paths on it.
\<close>

record RefStore =
  st_rows :: "row list"
  st_failures :: "bool list"

definition ref_embed :: "DatabaseFields \<Rightarrow> row \<Rightarrow> row" where
  "ref_embed F r = (if has_key (VECTOR F) r then r else r @ [(VECTOR F, JVector [])])"

definition ref_matches :: "DatabaseFields \<Rightarrow> string \<Rightarrow> row \<Rightarrow> bool" where
  "ref_matches F flt r =
     (if flt = content_nonempty_filter F
      then (case map_of r (CONTENT F) of Some (JString c) \<Rightarrow> c \<noteq> [] | _ \<Rightarrow> False)
      else if flt = content_empty_filter F
      then map_of r (CONTENT F) = Some (JString [])
      else (case map_of r (NOTE_PATH F) of
              Some (JString p) \<Rightarrow> flt = path_filter_single F p \<or> flt = path_filter_double F p
            | _ \<Rightarrow> False))"

definition ref_select :: "DatabaseFields \<Rightarrow> Query \<Rightarrow> row list \<Rightarrow> row list" where
  "ref_select F q rs =
     (let matched = (case q_filter q of None \<Rightarrow> rs | Some flt \<Rightarrow> filter (ref_matches F flt) rs)
      in case q_limit q of None \<Rightarrow> matched | Some n \<Rightarrow> take n matched)"

definition ref_add :: "DatabaseFields \<Rightarrow> row list \<Rightarrow> RefStore \<Rightarrow> (error + unit) \<times> RefStore" where
  "ref_add F rs st =
     (case st_failures st of
        [] \<Rightarrow> (Inr (), st\<lparr>st_rows := st_rows st @ map (ref_embed F) rs\<rparr>)
      | fails # later \<Rightarrow>
          if fails then (Inl (Thrown ''add failed''), st\<lparr>st_failures := later\<rparr>)
          else (Inr (), st\<lparr>st_rows := st_rows st @ map (ref_embed F) rs, st_failures := later\<rparr>))"

definition ref_lance :: "DatabaseFields \<Rightarrow> RefStore Lance" where
  "ref_lance F =
     \<lparr>lance_add = ref_add F,
      lance_delete = (\<lambda>flt st. (Inr (), st\<lparr>st_rows := filter (\<lambda>r. \<not> ref_matches F flt r) (st_rows st)\<rparr>)),
      lance_execute = (\<lambda>q st. (Inr (ref_select F q (st_rows st)), st)),
      lance_countRows = (\<lambda>st. (Inr (length (st_rows st)), st))\<rparr>"

text \<open>
  What the two queries of \<^verbatim>\<open>getTableAsArray\<close> give on a reference store that holds
  the rows \<open>rs\<close>.
\<close>

definition materialize :: "DatabaseFields \<Rightarrow> row list \<Rightarrow> row option list" where
  "materialize F rs =
     map (convertRawDBResultToRagnoteDBEntry F)
       (filter (ref_matches F (content_nonempty_filter F)) rs) @
     map (convertRawDBResultToRagnoteDBEntry F)
       (filter (ref_matches F (content_empty_filter F)) rs)"

text \<open>The rows a list holds for a path.\<close>

definition rows_for_path :: "string \<Rightarrow> row list \<Rightarrow> row list" where
  "rows_for_path p rs = filter (\<lambda>r. get_prop r ''notepath'' = JString p) rs"

text \<open>
  A stored row keeps the fields of the record it was made from: every property of the
  record is in the row, with the same value. A store may add properties, the vector for
  one.
\<close>

definition keeps_fields :: "row \<Rightarrow> row \<Rightarrow> bool" where
  "keeps_fields given stored = list_all (\<lambda>(k, v). map_of stored k = Some v) given"

text \<open>Whether the next \<^verbatim>\<open>add\<close> of a reference store is scheduled to fail.\<close>

definition next_add_fails :: "RefStore \<Rightarrow> bool" where
  "next_add_fails st = (case st_failures st of [] \<Rightarrow> False | fails # later \<Rightarrow> fails)"

text \<open>A table object as the constructor leaves it, and one bound to a reference store.\<close>

definition new_RagnoteTable :: "'st RagnoteTable" where
  "new_RagnoteTable = \<lparr>table = None, trace = []\<rparr>"

definition ref_table :: "row list \<Rightarrow> bool list \<Rightarrow> RefStore RagnoteTable" where
  "ref_table rs fs = \<lparr>table = Some \<lparr>st_rows = rs, st_failures = fs\<rparr>, trace = []\<rparr>"


text \<open>
  Rows for the examples: two well-formed ones, the second with an empty content, and one
  without a vector, as a corrupt or partially migrated table may hold. \<open>unit_table\<close> is
  a table bound to a store without state.
\<close>

definition good_row :: row where
  "good_row = [(''notepath'', JString ''a.md''), (''vector'', JVector []), (''content'', JString ''x''),
      (''subnoteindex'', JNumber 0), (''timeadded'', JDate 7)]"

definition empty_row :: row where
  "empty_row = [(''notepath'', JString ''b.md''), (''vector'', JVector []), (''content'', JString []),
      (''subnoteindex'', JNumber 0), (''timeadded'', JDate 8)]"

definition bad_row :: row where
  "bad_row = entry ''b.md'' ''y'' 0 7"


text \<open>
  A directory for the examples: the lister finds \<^verbatim>\<open>a.md\<close> and \<^verbatim>\<open>b.md\<close>, of
  which only \<^verbatim>\<open>b.md\<close> can be read. The table holds a row for \<^verbatim>\<open>a.md\<close> when the
  orchestrator runs for the first time; the second run starts from the table the first
  one left.
\<close>

definition demo_lister :: "string \<Rightarrow> string list \<Rightarrow> error + FileInfo list" where
  "demo_lister dir exts = Inr [\<lparr>path = ''a.md''\<rparr>, \<lparr>path = ''b.md''\<rparr>]"

definition demo_readFileSync :: "string \<Rightarrow> error + string" where
  "demo_readFileSync p = (if p = ''b.md'' then Inr ''y'' else Inl (Thrown ''ENOENT''))"

definition demo_clock :: "nat \<Rightarrow> nat" where
  "demo_clock i = 7 + i"

definition first_run :: "(error + unit) \<times> RefStore RagnoteTable" where
  "first_run = maybeRePopulateTable (ref_lance std_fields) std_fields demo_lister
                 demo_readFileSync demo_clock (ref_table [good_row] []) ''notes'' [''.md''] None"

definition second_run :: "(error + unit) \<times> RefStore RagnoteTable" where
  "second_run = maybeRePopulateTable (ref_lance std_fields) std_fields demo_lister
                  demo_readFileSync demo_clock (snd first_run) ''notes'' [''.md''] None"

section \<open>Chunking\<close>

lemma chunk_loop_unfold:
  "chunk_loop xs i =
     (if i < length xs then take 50 (drop i xs) # chunk_loop xs (i + 50) else [])"
  by (subst chunk_loop.simps) (simp add: slice_def chunkSize_def)

lemma concat_chunk_loop: "concat (chunk_loop xs i) = drop i xs"
proof (induction xs i rule: chunk_loop.induct)
  case (1 xs i)
  show ?case
  proof (cases "i < length xs")
    case True
    have "concat (chunk_loop xs i) = take 50 (drop i xs) @ concat (chunk_loop xs (i + 50))"
      using True by (subst chunk_loop_unfold) simp
    also have "concat (chunk_loop xs (i + 50)) = drop (i + 50) xs"
      using "1.IH" True by (simp add: chunkSize_def)
    finally have "concat (chunk_loop xs i) = take 50 (drop i xs) @ drop 50 (drop i xs)"
      by (simp add: add.commute)
    then show ?thesis by (simp only: append_take_drop_id)
  next
    case False
    then show ?thesis by (subst chunk_loop_unfold) simp
  qed
qed

lemma div50_step:
  assumes "i < (n::nat)"
  shows "(n - i + 49) div 50 = Suc ((n - (i + 50) + 49) div 50)"
proof (cases "i + 50 \<le> n")
  case True
  then have e: "n - i + 49 = (n - (i + 50) + 49) + 50" by simp
  have gen: "(a + 50) div 50 = Suc (a div 50)" for a :: nat by simp
  show ?thesis by (subst e) (rule gen)
next
  case False
  then have z: "n - (i + 50) = 0" by simp
  have "50 * 1 \<le> n - i + 49" "n - i + 49 < 50 * Suc 1" using assms False by simp_all
  then have "(n - i + 49) div 50 = 1" by (rule div_nat_eqI)
  moreover have "Suc ((n - (i + 50) + 49) div 50) = 1" by (simp add: z)
  ultimately show ?thesis by (simp only:)
qed

lemma length_chunk_loop: "length (chunk_loop xs i) = (length xs - i + 49) div 50"
proof (induction xs i rule: chunk_loop.induct)
  case (1 xs i)
  show ?case
  proof (cases "i < length xs")
    case True
    have "length (chunk_loop xs i) = Suc (length (chunk_loop xs (i + 50)))"
      using True by (subst chunk_loop_unfold) simp
    also have "length (chunk_loop xs (i + 50)) = (length xs - (i + 50) + 49) div 50"
      using "1.IH" True by (simp add: chunkSize_def)
    finally have "length (chunk_loop xs i) = Suc ((length xs - (i + 50) + 49) div 50)" .
    then show ?thesis by (simp only: div50_step [OF True])
  next
    case False
    then show ?thesis by (subst chunk_loop_unfold) simp
  qed
qed

lemma nth_chunk_loop:
  "k < length (chunk_loop xs i) \<Longrightarrow> chunk_loop xs i ! k = take 50 (drop (i + 50 * k) xs)"
proof (induction xs i arbitrary: k rule: chunk_loop.induct)
  case (1 xs i)
  show ?case
  proof (cases "i < length xs")
    case True
    note unf = chunk_loop_unfold [of xs i]
    show ?thesis
    proof (cases k)
      case 0
      then show ?thesis using True unf by simp
    next
      case (Suc j)
      have "j < length (chunk_loop xs (i + 50))"
        using "1.prems" True Suc unf by simp
      then have "chunk_loop xs (i + 50) ! j = take 50 (drop (i + 50 + 50 * j) xs)"
        using "1.IH" True by (simp add: chunkSize_def)
      then show ?thesis using True Suc unf by (simp add: algebra_simps)
    qed
  next
    case False
    then show ?thesis using "1.prems" by (subst (asm) chunk_loop_unfold) simp
  qed
qed

lemma chunk_sizes:
  "c \<in> set (chunk_loop xs i) \<Longrightarrow> 0 < length c \<and> length c \<le> 50"
proof (induction xs i rule: chunk_loop.induct)
  case (1 xs i)
  show ?case
  proof (cases "i < length xs")
    case True
    then have "c = take 50 (drop i xs) \<or> c \<in> set (chunk_loop xs (i + 50))"
      using "1.prems" by (subst (asm) chunk_loop_unfold) simp
    then show ?thesis using "1.IH" True by (auto simp: chunkSize_def)
  next
    case False
    then show ?thesis using "1.prems" by (subst (asm) chunk_loop_unfold) simp
  qed
qed

lemma ceil50: "nat \<lceil>rat_of_nat n / 50\<rceil> = (n + 49) div 50"
proof -
  have "\<lceil>rat_of_nat n / 50\<rceil> = \<lceil>of_int (int n) / (of_int 50 :: rat)\<rceil>" by simp
  also have "\<dots> = - (- int n div 50)" by (rule ceiling_divide_eq_div)
  also have "\<dots> = (int n + 49) div 50" by linarith
  also have "\<dots> = int ((n + 49) div 50)" by (simp add: zdiv_int)
  finally show ?thesis by simp
qed

section \<open>Progress fractions\<close>

lemma frac_mono_gen:
  "0 < M \<Longrightarrow> sorted_wrt (<) (map (\<lambda>k. rat_of_nat k / rat_of_nat M) [a..<b])"
  by (simp add: sorted_wrt_map sorted_wrt_iff_nth_less divide_strict_right_mono)

lemma frac_mono: "sorted_wrt (<) (map (\<lambda>k. rat_of_nat k / rat_of_nat M) [1..<Suc M])"
proof (cases "0 < M")
  case True
  then show ?thesis by (rule frac_mono_gen)
next
  case False
  then show ?thesis by simp
qed

lemma frac_last: "0 < M \<Longrightarrow> last (map (\<lambda>k. rat_of_nat k / rat_of_nat M) [1..<Suc M]) = 1"
  by (simp add: last_map)

lemma length_upt1: "length [1..<Suc M] = M"
  by (simp del: upt_Suc)

lemma nth_upt1: "k < M \<Longrightarrow> [1..<Suc M] ! k = Suc k"
  by (simp del: upt_Suc)

section \<open>Store calls and traces\<close>

lemma store_call_Some:
  "table t = Some st \<Longrightarrow>
   store_call c f t =
     (fst (f st), t\<lparr>table := Some (snd (f st)),
                    trace := trace t @ [Store c (err_of (fst (f st)))]\<rparr>)"
  by (simp add: store_call_def split: prod.splits)

lemma store_call_None: "table t = None \<Longrightarrow> store_call c f t = (Inl TypeError, t)"
  by (simp add: store_call_def)

lemma store_adds_append: "store_adds (xs @ ys) = store_adds xs @ store_adds ys"
  by (induction xs rule: store_adds.induct) simp_all

lemma add_outcomes_append: "add_outcomes (xs @ ys) = add_outcomes xs @ add_outcomes ys"
  by (induction xs rule: add_outcomes.induct) simp_all

lemma new_events_append: "trace t' = trace t @ new \<Longrightarrow> new_events t t' = new"
  by (simp add: new_events_def)

section \<open>The write loop\<close>

lemma add_loop_trace:
  assumes "table t \<noteq> None" and "\<forall>cb p. onProgress = Some cb \<longrightarrow> cb p = None"
  shows "\<exists>new. fst (add_loop L onProgress M chunks idx t) = Inr () \<and>
           table (snd (add_loop L onProgress M chunks idx t)) \<noteq> None \<and>
           trace (snd (add_loop L onProgress M chunks idx t)) = trace t @ new \<and>
           store_adds new = chunks \<and>
           progress_calls new =
             (case onProgress of None \<Rightarrow> []
              | Some cb \<Rightarrow> map (\<lambda>k. of_nat k / of_nat M) [Suc idx..<Suc idx + length chunks])"
  using assms(1)
proof (induction chunks arbitrary: idx t)
  case Nil
  then show ?case by (cases onProgress) simp_all
next
  case (Cons chunk rest)
  from Cons.prems obtain st where st: "table t = Some st" by auto
  define t1 where "t1 = t\<lparr>table := Some (snd (lance_add L chunk st)),
      trace := trace t @ [Store (Add chunk) (err_of (fst (lance_add L chunk st)))]\<rparr>"
  have call: "store_call (Add chunk) (lance_add L chunk) t = (fst (lance_add L chunk st), t1)"
    using st by (simp add: store_call_Some t1_def)
  show ?case
  proof (cases onProgress)
    case None
    have step: "add_loop L onProgress M (chunk # rest) idx t = add_loop L onProgress M rest (Suc idx) t1"
      using call None by simp
    have "table t1 \<noteq> None" by (simp add: t1_def)
    from Cons.IH [OF this, of "Suc idx"] obtain new where
      new: "fst (add_loop L onProgress M rest (Suc idx) t1) = Inr ()"
        "table (snd (add_loop L onProgress M rest (Suc idx) t1)) \<noteq> None"
        "trace (snd (add_loop L onProgress M rest (Suc idx) t1)) = trace t1 @ new"
        "store_adds new = rest" "progress_calls new = []"
      using None by auto
    show ?thesis
      unfolding step using new
      by (intro exI [of _ "Store (Add chunk) (err_of (fst (lance_add L chunk st))) # new"])
         (simp add: t1_def None)
  next
    case (Some cb)
    define p where "p = rat_of_nat (Suc idx) / rat_of_nat M"
    define t2 where "t2 = t1\<lparr>trace := trace t1 @ [Progress p]\<rparr>"
    have cb: "cb p = None" using assms(2) Some by simp
    have step: "add_loop L onProgress M (chunk # rest) idx t = add_loop L onProgress M rest (Suc idx) t2"
      using call Some cb by (simp add: Let_def t2_def p_def)
    have "table t2 \<noteq> None" by (simp add: t2_def t1_def)
    from Cons.IH [OF this, of "Suc idx"] obtain new where
      new: "fst (add_loop L onProgress M rest (Suc idx) t2) = Inr ()"
        "table (snd (add_loop L onProgress M rest (Suc idx) t2)) \<noteq> None"
        "trace (snd (add_loop L onProgress M rest (Suc idx) t2)) = trace t2 @ new"
        "store_adds new = rest"
        "progress_calls new = map (\<lambda>k. of_nat k / of_nat M) [Suc (Suc idx)..<Suc (Suc idx) + length rest]"
      using Some by auto
    have upt: "[Suc idx..<Suc idx + length (chunk # rest)] = Suc idx # [Suc (Suc idx)..<Suc (Suc idx) + length rest]"
      by (simp add: upt_rec)
    let ?new = "Store (Add chunk) (err_of (fst (lance_add L chunk st))) # Progress p # new"
    have tr: "trace (snd (add_loop L onProgress M rest (Suc idx) t2)) = trace t @ ?new"
      using new(3) by (simp add: t1_def t2_def)
    have sa: "store_adds ?new = chunk # rest"
      using new(4) by simp
    have pc: "progress_calls ?new =
                map (\<lambda>k. of_nat k / of_nat M) [Suc idx..<Suc idx + length (chunk # rest)]"
      unfolding upt using new(5) by (simp add: p_def)
    show ?thesis
      unfolding step using new(1,2) tr sa pc Some
      by (intro exI [of _ ?new]) (simp only: option.case simp_thms)
  qed
qed

lemma add_loop_error_from_callback:
  "fst (add_loop L onProgress M chunks idx t) = Inl x \<Longrightarrow>
   \<exists>cb p. onProgress = Some cb \<and> cb p = Some x"
proof (induction chunks arbitrary: idx t)
  case Nil
  then show ?case by simp
next
  case (Cons chunk rest)
  obtain r t1 where call: "store_call (Add chunk) (lance_add L chunk) t = (r, t1)"
    by (cases "store_call (Add chunk) (lance_add L chunk) t")
  show ?case
  proof (cases onProgress)
    case None
    then show ?thesis using Cons call by simp
  next
    case (Some cb)
    show ?thesis
    proof (cases "cb (rat_of_nat (Suc idx) / rat_of_nat M)")
      case None
      then show ?thesis using Cons call Some by (simp add: Let_def)
    next
      case (Some e)
      then show ?thesis using Cons.prems call \<open>onProgress = Some cb\<close> by (auto simp: Let_def)
    qed
  qed
qed


lemma RagnoteTable_add_trace:
  assumes "table t = Some st" and "\<forall>cb p. onProgress = Some cb \<longrightarrow> cb p = None"
    and "RagnoteTable_add L data onProgress t = (r, t')"
  shows "r = Inr ()"
    and "store_adds (new_events t t') = chunk_loop data 0"
    and "progress_calls (new_events t t') =
           (case onProgress of None \<Rightarrow> []
            | Some cb \<Rightarrow> map (\<lambda>k. of_nat k / of_nat (length (chunk_loop data 0)))
                          [1..<Suc (length (chunk_loop data 0))])"
proof -
  let ?M = "length (chunk_loop data 0)"
  have run: "add_loop L onProgress ?M (chunk_loop data 0) 0 t = (r, t')"
    using assms(3) by (simp add: RagnoteTable_add_def Let_def)
  have "table t \<noteq> None" using assms(1) by simp
  from add_loop_trace [OF this assms(2), of L ?M "chunk_loop data 0" 0]
  obtain new where new: "r = Inr ()" "trace t' = trace t @ new" "store_adds new = chunk_loop data 0"
    "progress_calls new =
       (case onProgress of None \<Rightarrow> []
        | Some cb \<Rightarrow> map (\<lambda>k. of_nat k / of_nat ?M) [Suc 0..<Suc 0 + ?M])"
    unfolding run by auto
  have ne: "new_events t t' = new" using new(2) by (rule new_events_append)
  show "r = Inr ()" by (rule new(1))
  show "store_adds (new_events t t') = chunk_loop data 0" unfolding ne by (rule new(3))
  show "progress_calls (new_events t t') =
           (case onProgress of None \<Rightarrow> []
            | Some cb \<Rightarrow> map (\<lambda>k. of_nat k / of_nat ?M) [1..<Suc ?M])"
    unfolding ne new(4) by (cases onProgress) simp_all
qed

lemma RagnoteTable_add_empty: "RagnoteTable_add L [] onProgress t = (Inr (), t)"
  by (simp add: RagnoteTable_add_def chunk_loop_unfold)

lemma add_loop_store:
  assumes "table t = Some st" and "\<forall>cb p. onProgress = Some cb \<longrightarrow> cb p = None"
  shows "\<exists>new. trace (snd (add_loop L onProgress M chunks idx t)) = trace t @ new \<and>
           table (snd (add_loop L onProgress M chunks idx t)) = Some (written L chunks st) \<and>
           store_calls new = map Add chunks \<and>
           add_outcomes new = write_outcomes L chunks st"
  using assms(1)
proof (induction chunks arbitrary: idx t st)
  case Nil
  then show ?case by (simp add: written_def)
next
  case (Cons chunk rest)
  let ?ev = "Store (Add chunk) (err_of (fst (lance_add L chunk st)))"
  let ?st1 = "snd (lance_add L chunk st)"
  define t1 where "t1 = t\<lparr>table := Some ?st1, trace := trace t @ [?ev]\<rparr>"
  have call: "store_call (Add chunk) (lance_add L chunk) t = (fst (lance_add L chunk st), t1)"
    using Cons.prems by (simp add: store_call_Some t1_def)
  have w: "written L (chunk # rest) st = written L rest ?st1" by (simp add: written_def)
  show ?case
  proof (cases onProgress)
    case None
    have step: "add_loop L onProgress M (chunk # rest) idx t =
                add_loop L onProgress M rest (Suc idx) t1"
      using call None by simp
    have "table t1 = Some ?st1" by (simp add: t1_def)
    from Cons.IH [OF this, of "Suc idx"] obtain new where
      new: "trace (snd (add_loop L onProgress M rest (Suc idx) t1)) = trace t1 @ new"
        "table (snd (add_loop L onProgress M rest (Suc idx) t1)) = Some (written L rest ?st1)"
        "store_calls new = map Add rest" "add_outcomes new = write_outcomes L rest ?st1"
      by blast
    have tr: "trace (snd (add_loop L onProgress M rest (Suc idx) t1)) = trace t @ (?ev # new)"
      using new(1) by (simp add: t1_def)
    have sc: "store_calls (?ev # new) = map Add (chunk # rest)" using new(3) by simp
    have ao: "add_outcomes (?ev # new) = write_outcomes L (chunk # rest) st" using new(4) by simp
    show ?thesis unfolding step w using tr new(2) sc ao by blast
  next
    case (Some cb)
    define p where "p = rat_of_nat (Suc idx) / rat_of_nat M"
    define t2 where "t2 = t1\<lparr>trace := trace t1 @ [Progress p]\<rparr>"
    have cb: "cb p = None" using assms(2) Some by simp
    have step: "add_loop L onProgress M (chunk # rest) idx t =
                add_loop L onProgress M rest (Suc idx) t2"
      using call Some cb by (simp add: Let_def t2_def p_def)
    have "table t2 = Some ?st1" by (simp add: t2_def t1_def)
    from Cons.IH [OF this, of "Suc idx"] obtain new where
      new: "trace (snd (add_loop L onProgress M rest (Suc idx) t2)) = trace t2 @ new"
        "table (snd (add_loop L onProgress M rest (Suc idx) t2)) = Some (written L rest ?st1)"
        "store_calls new = map Add rest" "add_outcomes new = write_outcomes L rest ?st1"
      by blast
    have tr: "trace (snd (add_loop L onProgress M rest (Suc idx) t2)) =
                trace t @ (?ev # Progress p # new)"
      using new(1) by (simp add: t2_def t1_def)
    have sc: "store_calls (?ev # Progress p # new) = map Add (chunk # rest)" using new(3) by simp
    have ao: "add_outcomes (?ev # Progress p # new) = write_outcomes L (chunk # rest) st"
      using new(4) by simp
    show ?thesis unfolding step w using tr new(2) sc ao by blast
  qed
qed

lemma RagnoteTable_add_store:
  assumes "table t = Some st" and "\<forall>cb p. onProgress = Some cb \<longrightarrow> cb p = None"
    and "RagnoteTable_add L data onProgress t = (r, t')"
  shows "table t' = Some (written L (chunk_loop data 0) st)"
    and "store_calls (new_events t t') = map Add (chunk_loop data 0)"
    and "add_outcomes (new_events t t') = write_outcomes L (chunk_loop data 0) st"
proof -
  let ?M = "length (chunk_loop data 0)"
  have run: "add_loop L onProgress ?M (chunk_loop data 0) 0 t = (r, t')"
    using assms(3) by (simp add: RagnoteTable_add_def Let_def)
  from add_loop_store [OF assms(1,2), of L ?M "chunk_loop data 0" 0]
  obtain new where new: "trace t' = trace t @ new"
    "table t' = Some (written L (chunk_loop data 0) st)"
    "store_calls new = map Add (chunk_loop data 0)"
    "add_outcomes new = write_outcomes L (chunk_loop data 0) st"
    unfolding run by auto
  have ne: "new_events t t' = new" using new(1) by (rule new_events_append)
  show "table t' = Some (written L (chunk_loop data 0) st)" by (rule new(2))
  show "store_calls (new_events t t') = map Add (chunk_loop data 0)" unfolding ne by (rule new(3))
  show "add_outcomes (new_events t t') = write_outcomes L (chunk_loop data 0) st"
    unfolding ne by (rule new(4))
qed

section \<open>Chunked writes and progress\<close>

text \<open>
  Claim C1. On an initialised table over any store \<open>L\<close>, with a progress callback that
  does not raise (or none), \<^verbatim>\<open>RagnoteTable.add\<close> returns normally, and the calls that
  reached the store are exactly one \<^verbatim>\<open>add\<close> per chunk of the first loop, in order,
  and no other call. Each call was really made: its recorded outcome is what \<open>L\<close>
  answered, and the table is left bound to the state \<open>L\<close> reached after taking the
  chunks one after the other. There are \<open>M = \<lceil>N / 50\<rceil>\<close> chunks; chunk \<open>k\<close> is the
  slice of the input from \<open>50 k\<close> of length at most 50, none is empty, and together
  they are the input. A supplied callback has been invoked with
  \<open>1 / M, 2 / M, \<dots>, M / M\<close>, so \<open>M\<close> times, strictly increasing, and last with 1.
  For the empty input nothing happens at all: the table object, trace included, is
  unchanged.
\<close>

theorem add_chunks_writes_progress:
  assumes "table t = Some st"
    and "\<forall>cb p. onProgress = Some cb \<longrightarrow> cb p = None"
    and "RagnoteTable_add L data onProgress t = (r, t')"
    and "M = nat \<lceil>rat_of_nat (length data) / 50\<rceil>"
  shows "r = Inr () \<and>
         store_calls (new_events t t') = map Add (chunk_loop data 0) \<and>
         add_outcomes (new_events t t') = write_outcomes L (chunk_loop data 0) st \<and>
         table t' = Some (written L (chunk_loop data 0) st) \<and>
         store_adds (new_events t t') = chunk_loop data 0 \<and>
         length (chunk_loop data 0) = M \<and>
         concat (chunk_loop data 0) = data \<and>
         (\<forall>k<M. chunk_loop data 0 ! k = take 50 (drop (50 * k) data)) \<and>
         (\<forall>c\<in>set (chunk_loop data 0). 0 < length c \<and> length c \<le> 50) \<and>
         progress_calls (new_events t t') =
           (case onProgress of None \<Rightarrow> []
            | Some cb \<Rightarrow> map (\<lambda>k. of_nat k / of_nat M) [1..<Suc M]) \<and>
         sorted_wrt (<) (progress_calls (new_events t t')) \<and>
         (data \<noteq> [] \<and> onProgress \<noteq> None \<longrightarrow> last (progress_calls (new_events t t')) = 1) \<and>
         (data = [] \<longrightarrow> t' = t)"
proof -
  have len: "length (chunk_loop data 0) = M"
    unfolding assms(4) ceil50 by (simp add: length_chunk_loop)
  note tr = RagnoteTable_add_trace [OF assms(1,2,3)]
  note st = RagnoteTable_add_store [OF assms(1,2,3)]
  have pc: "progress_calls (new_events t t') =
           (case onProgress of None \<Rightarrow> []
            | Some cb \<Rightarrow> map (\<lambda>k. of_nat k / of_nat M) [1..<Suc M])"
    using tr(3) unfolding len .
  have nth: "\<forall>k<M. chunk_loop data 0 ! k = take 50 (drop (50 * k) data)"
    using nth_chunk_loop [of _ data 0] len by simp
  have sizes: "\<forall>c\<in>set (chunk_loop data 0). 0 < length c \<and> length c \<le> 50"
    using chunk_sizes by blast
  have sorted: "sorted_wrt (<) (progress_calls (new_events t t'))"
    unfolding pc by (cases onProgress) (simp_all only: option.case sorted_wrt.simps frac_mono)
  have last1: "data \<noteq> [] \<and> onProgress \<noteq> None \<longrightarrow> last (progress_calls (new_events t t')) = 1"
  proof
    assume a: "data \<noteq> [] \<and> onProgress \<noteq> None"
    then have "0 < length data" by simp
    then have "50 \<le> length data + 49" by linarith
    then have "0 < M" unfolding assms(4) ceil50 by (simp add: div_greater_zero_iff)
    then have "last (map (\<lambda>k. rat_of_nat k / rat_of_nat M) [1..<Suc M]) = 1" by (rule frac_last)
    then show "last (progress_calls (new_events t t')) = 1"
      unfolding pc using a by (cases onProgress) (simp_all only: option.case, simp)
  qed
  have empty: "data = [] \<longrightarrow> t' = t"
    using assms(3) by (auto simp: RagnoteTable_add_empty)
  show ?thesis
    using tr(1,2) st len concat_chunk_loop [of data 0] nth sizes pc sorted last1 empty
    by (simp only: drop_0 simp_thms)
qed

theorem add_chunks_writes_progress_witness:
  "fst (RagnoteTable_add (ref_lance std_fields) (replicate 120 (entry ''a.md'' ''x'' 0 7))
          (Some (\<lambda>p. None)) (ref_table [] [])) = Inr () \<and>
   store_calls (new_events (ref_table [] [])
     (snd (RagnoteTable_add (ref_lance std_fields) (replicate 120 (entry ''a.md'' ''x'' 0 7))
          (Some (\<lambda>p. None)) (ref_table [] [])))) =
     [Add (replicate 50 (entry ''a.md'' ''x'' 0 7)), Add (replicate 50 (entry ''a.md'' ''x'' 0 7)),
      Add (replicate 20 (entry ''a.md'' ''x'' 0 7))] \<and>
   table (snd (RagnoteTable_add (ref_lance std_fields) (replicate 120 (entry ''a.md'' ''x'' 0 7))
          (Some (\<lambda>p. None)) (ref_table [] []))) =
     Some \<lparr>st_rows = replicate 120 (entry ''a.md'' ''x'' 0 7 @ [(''vector'', JVector [])]),
           st_failures = []\<rparr> \<and>
   progress_calls (new_events (ref_table [] [])
     (snd (RagnoteTable_add (ref_lance std_fields) (replicate 120 (entry ''a.md'' ''x'' 0 7))
          (Some (\<lambda>p. None)) (ref_table [] [])))) = [1 / 3, 2 / 3, 1]"
proof -
  let ?e = "entry ''a.md'' ''x'' 0 7"
  let ?st = "\<lparr>st_rows = [], st_failures = []\<rparr>"
  have h1: "table (ref_table [] []) = Some ?st"
    by (simp add: ref_table_def)
  have h2: "\<forall>cb p. Some (\<lambda>p::rat. None::error option) = Some cb \<longrightarrow> cb p = None"
    by simp
  have h4: "(3::nat) = nat \<lceil>rat_of_nat (length (replicate 120 ?e)) / 50\<rceil>"
    by (subst ceil50) simp
  have chunks: "chunk_loop (replicate 120 ?e) 0 = [replicate 50 ?e, replicate 50 ?e, replicate 20 ?e]"
    by code_simp
  have stored: "written (ref_lance std_fields) [replicate 50 ?e, replicate 50 ?e, replicate 20 ?e] ?st =
      \<lparr>st_rows = replicate 120 (?e @ [(''vector'', JVector [])]), st_failures = []\<rparr>"
    by code_simp
  show ?thesis
    using add_chunks_writes_progress [where L = "ref_lance std_fields"
        and data = "replicate 120 ?e", OF h1 h2 surjective_pairing h4]
    unfolding chunks stored
    by (simp add: upt_rec)
qed

section \<open>Fault isolation of the write loop\<close>

text \<open>
  Claim C2. Suppose the store's \<^verbatim>\<open>add\<close> raised on chunk \<open>k\<close>. If
  \<^verbatim>\<open>RagnoteTable.add\<close> raises at all, the exception is one the progress callback
  raised, never the store's. When the callback does not raise, \<^verbatim>\<open>RagnoteTable.add\<close>
  returns normally, every chunk has been handed to the store (those after \<open>k\<close>
  too), and a supplied callback has been invoked once per chunk, the \<open>k\<close>-th
  invocation (counting from 0) being the one for the failed chunk, with \<open>(k + 1) / M\<close>.
\<close>

theorem add_fault_isolation:
  assumes "table t = Some st"
    and "RagnoteTable_add L data onProgress t = (r, t')"
    and "k < length (chunk_loop data 0)"
    and "add_outcomes (new_events t t') ! k = Some e"
  shows "(\<forall>x. r = Inl x \<longrightarrow> (\<exists>cb p. onProgress = Some cb \<and> cb p = Some x)) \<and>
         ((\<forall>cb p. onProgress = Some cb \<longrightarrow> cb p = None) \<longrightarrow>
            r = Inr () \<and>
            store_adds (new_events t t') = chunk_loop data 0 \<and>
            (\<forall>cb. onProgress = Some cb \<longrightarrow>
               length (progress_calls (new_events t t')) = length (chunk_loop data 0) \<and>
               progress_calls (new_events t t') ! k =
                 of_nat (Suc k) / of_nat (length (chunk_loop data 0))))"
proof (intro conjI allI impI)
  fix x assume "r = Inl x"
  then have "fst (add_loop L onProgress (length (chunk_loop data 0)) (chunk_loop data 0) 0 t) = Inl x"
    using assms(2) by (simp add: RagnoteTable_add_def Let_def)
  then show "\<exists>cb p. onProgress = Some cb \<and> cb p = Some x"
    by (rule add_loop_error_from_callback)
next
  assume cb: "\<forall>cb p. onProgress = Some cb \<longrightarrow> cb p = None"
  note tr = RagnoteTable_add_trace [OF assms(1) cb assms(2)]
  show "r = Inr ()" by (rule tr(1))
  show "store_adds (new_events t t') = chunk_loop data 0" by (rule tr(2))
  fix cb' assume s: "onProgress = Some cb'"
  show "length (progress_calls (new_events t t')) = length (chunk_loop data 0)"
    unfolding tr(3) s by (simp only: option.case length_map length_upt1)
  show "progress_calls (new_events t t') ! k =
          of_nat (Suc k) / of_nat (length (chunk_loop data 0))"
    unfolding tr(3) s using assms(3)
    by (simp only: option.case nth_map length_upt1 nth_upt1)
qed

theorem add_fault_isolation_witness:
  "fst (RagnoteTable_add (ref_lance std_fields) (replicate 51 (entry ''a.md'' ''x'' 0 7))
          (Some (\<lambda>p. None)) (ref_table [] [True, False])) = Inr () \<and>
   add_outcomes (new_events (ref_table [] [True, False])
     (snd (RagnoteTable_add (ref_lance std_fields) (replicate 51 (entry ''a.md'' ''x'' 0 7))
          (Some (\<lambda>p. None)) (ref_table [] [True, False])))) =
     [Some (Thrown ''add failed''), None] \<and>
   length (store_adds (new_events (ref_table [] [True, False])
     (snd (RagnoteTable_add (ref_lance std_fields) (replicate 51 (entry ''a.md'' ''x'' 0 7))
          (Some (\<lambda>p. None)) (ref_table [] [True, False]))))) = 2 \<and>
   progress_calls (new_events (ref_table [] [True, False])
     (snd (RagnoteTable_add (ref_lance std_fields) (replicate 51 (entry ''a.md'' ''x'' 0 7))
          (Some (\<lambda>p. None)) (ref_table [] [True, False])))) ! 0 = 1 / 2"
proof -
  let ?t = "ref_table [] [True, False]"
  let ?data = "replicate 51 (entry ''a.md'' ''x'' 0 7)"
  let ?run = "RagnoteTable_add (ref_lance std_fields) ?data (Some (\<lambda>p. None)) ?t"
  have h1: "table ?t = Some \<lparr>st_rows = [], st_failures = [True, False]\<rparr>"
    by (simp add: ref_table_def)
  have len: "length (chunk_loop ?data 0) = 2"
    by (simp add: length_chunk_loop)
  have h3: "0 < length (chunk_loop ?data 0)"
    by (simp add: len)
  have out: "add_outcomes (new_events ?t (snd ?run)) = [Some (Thrown ''add failed''), None]"
    by code_simp
  have h4: "add_outcomes (new_events ?t (snd ?run)) ! 0 = Some (Thrown ''add failed'')"
    by (simp add: out)
  have cb: "\<forall>cb p. Some (\<lambda>p::rat. None::error option) = Some cb \<longrightarrow> cb p = None"
    by simp
  show ?thesis
    using add_fault_isolation [OF h1 surjective_pairing h3 h4] cb out len
    by simp
qed

section \<open>Malformed rows in query results\<close>

text \<open>
  Claim C3. The claim is that a raw row without one of the five fields is dropped from
  the results of \<^verbatim>\<open>search\<close> and \<^verbatim>\<open>filter\<close>. The converter maps such a row to
  \<^verbatim>\<open>null\<close>, but the line that would remove the \<^verbatim>\<open>null\<close>s is commented out in both
  methods, and the list is cast to \<^verbatim>\<open>RagnoteDBEntry[]\<close> as it is. With a store that
  holds a well-formed row and a row without a vector, both methods return a list of two
  elements, the second being \<^verbatim>\<open>null\<close>.
\<close>

theorem search_keeps_malformed_rows:
  "fst (RagnoteTable_search (ref_lance std_fields) std_fields ''query'' 10 None
          (ref_table [good_row, bad_row] [])) = Inr [Some good_row, None] \<and>
   fst (RagnoteTable_filter (ref_lance std_fields) std_fields
          (content_nonempty_filter std_fields) 10
          (ref_table [good_row, bad_row] [])) = Inr [Some good_row, None]"
  by code_simp

section \<open>Operations on a table that is not initialised\<close>

lemma initialize_table:
  "initialize createEmbeddingFunction GetOrCreateLanceTable dbConnection userDirectory t = (r, t')
   \<Longrightarrow> (case r of Inl e \<Rightarrow> t' = t | Inr u \<Rightarrow> table t' \<noteq> None)"
  by (auto simp: initialize_def split: sum.splits)

lemma add_loop_uninitialised:
  assumes "table t = None"
  shows "\<exists>new. trace (snd (add_loop L onProgress M chunks idx t)) = trace t @ new \<and>
               store_adds new = []"
  using assms
proof (induction chunks arbitrary: idx t)
  case Nil
  then show ?case by simp
next
  case (Cons chunk rest)
  have call: "store_call (Add chunk) (lance_add L chunk) t = (Inl TypeError, t)"
    using Cons.prems by (rule store_call_None)
  show ?case
  proof (cases onProgress)
    case None
    then show ?thesis using Cons.IH [OF Cons.prems, of "Suc idx"] call by simp
  next
    case (Some cb)
    define p where "p = rat_of_nat (Suc idx) / rat_of_nat M"
    define t2 where "t2 = t\<lparr>trace := trace t @ [Progress p]\<rparr>"
    have t2: "table t2 = None" using Cons.prems by (simp add: t2_def)
    show ?thesis
    proof (cases "cb p")
      case None
      have step: "add_loop L onProgress M (chunk # rest) idx t =
                  add_loop L onProgress M rest (Suc idx) t2"
        using call Some None by (simp add: Let_def t2_def p_def)
      from Cons.IH [OF t2, of "Suc idx"] obtain new where
        new: "trace (snd (add_loop L onProgress M rest (Suc idx) t2)) = trace t2 @ new"
          "store_adds new = []"
        by auto
      show ?thesis
        unfolding step using new
        by (intro exI [of _ "Progress p # new"]) (simp add: t2_def)
    next
      case (Some e)
      have step: "add_loop L onProgress M (chunk # rest) idx t = (Inl e, t2)"
        using call \<open>onProgress = Some cb\<close> Some by (simp add: Let_def t2_def p_def)
      show ?thesis
        unfolding step by (intro exI [of _ "[Progress p]"]) (simp add: t2_def)
    qed
  qed
qed

text \<open>
  The claim C6 says that \<^verbatim>\<open>add\<close>, like the other operations, fails before
  \<^verbatim>\<open>initialize\<close>. It does not: the \<open>TypeError\<close> of the undefined table is raised
  inside the \<^verbatim>\<open>try\<close> of the write loop and caught there.
\<close>

theorem add_before_initialize_counterexample:
  "RagnoteTable_add (ref_lance std_fields) [entry ''a.md'' ''x'' 0 7] None new_RagnoteTable =
     (Inr (), new_RagnoteTable)"
  by (simp add: RagnoteTable_add_def chunk_loop_unfold new_RagnoteTable_def store_call_def)

text \<open>
  Claim C6, amended. The module has no error of its own for this case. On a table whose
  \<open>table\<close> field is still undefined, \<^verbatim>\<open>delete\<close>, \<^verbatim>\<open>search\<close>, \<^verbatim>\<open>filter\<close> and
  \<^verbatim>\<open>countRows\<close> raise the runtime's \<open>TypeError\<close> and leave the object as it is.
  \<^verbatim>\<open>add\<close> does not fail: no call reaches the store, and it returns normally unless
  the progress callback raises; without a callback the object is unchanged.
\<close>

theorem uninitialised_table_operations:
  assumes "table t = None"
  shows "RagnoteTable_delete L flt t = (Inl TypeError, t) \<and>
         RagnoteTable_search L F query limit optFilter t = (Inl TypeError, t) \<and>
         RagnoteTable_filter L F filterString limit t = (Inl TypeError, t) \<and>
         RagnoteTable_countRows L t = (Inl TypeError, t) \<and>
         RagnoteTable_add L data None t = (Inr (), t) \<and>
         store_adds (new_events t (snd (RagnoteTable_add L data onProgress t))) = [] \<and>
         ((\<forall>cb p. onProgress = Some cb \<longrightarrow> cb p = None) \<longrightarrow>
            fst (RagnoteTable_add L data onProgress t) = Inr ())"
proof -
  have del: "RagnoteTable_delete L flt t = (Inl TypeError, t)"
    using assms by (simp add: RagnoteTable_delete_def store_call_None)
  have srch: "RagnoteTable_search L F query limit optFilter t = (Inl TypeError, t)"
    using assms by (simp add: RagnoteTable_search_def store_call_None Let_def)
  have flt: "RagnoteTable_filter L F filterString limit t = (Inl TypeError, t)"
    using assms by (simp add: RagnoteTable_filter_def store_call_None Let_def)
  have cnt: "RagnoteTable_countRows L t = (Inl TypeError, t)"
    using assms by (simp add: RagnoteTable_countRows_def store_call_None)
  have loop: "add_loop L None M chunks idx t = (Inr (), t)" for M chunks idx
    using assms by (induction chunks arbitrary: idx) (simp_all add: store_call_None)
  have add0: "RagnoteTable_add L data None t = (Inr (), t)"
    by (simp add: RagnoteTable_add_def Let_def loop)
  obtain new where
    new: "trace (snd (RagnoteTable_add L data onProgress t)) = trace t @ new" "store_adds new = []"
    using add_loop_uninitialised [OF assms, of L onProgress] 
    unfolding RagnoteTable_add_def Let_def by blast
  have calls: "store_adds (new_events t (snd (RagnoteTable_add L data onProgress t))) = []"
    using new by (simp add: new_events_append)
  have res: "(\<forall>cb p. onProgress = Some cb \<longrightarrow> cb p = None) \<longrightarrow>
               fst (RagnoteTable_add L data onProgress t) = Inr ()"
  proof
    assume quiet: "\<forall>cb p. onProgress = Some cb \<longrightarrow> cb p = None"
    show "fst (RagnoteTable_add L data onProgress t) = Inr ()"
    proof (cases "fst (RagnoteTable_add L data onProgress t)")
      case (Inl x)
      then have "\<exists>cb p. onProgress = Some cb \<and> cb p = Some x"
        unfolding RagnoteTable_add_def Let_def by (rule add_loop_error_from_callback)
      then show ?thesis using quiet by auto
    next
      case (Inr u)
      then show ?thesis by simp
    qed
  qed
  show ?thesis using del srch flt cnt add0 calls res by (simp only: simp_thms)
qed

theorem uninitialised_table_operations_witness:
  "RagnoteTable_delete (ref_lance std_fields) (path_filter_double std_fields ''a.md'')
     new_RagnoteTable = (Inl TypeError, new_RagnoteTable) \<and>
   RagnoteTable_search (ref_lance std_fields) std_fields ''query'' 10 None
     new_RagnoteTable = (Inl TypeError, new_RagnoteTable) \<and>
   RagnoteTable_filter (ref_lance std_fields) std_fields (content_empty_filter std_fields) 10
     new_RagnoteTable = (Inl TypeError, new_RagnoteTable) \<and>
   RagnoteTable_countRows (ref_lance std_fields) new_RagnoteTable =
     (Inl TypeError, new_RagnoteTable) \<and>
   RagnoteTable_add (ref_lance std_fields) [entry ''a.md'' ''x'' 0 7] None new_RagnoteTable =
     (Inr (), new_RagnoteTable)"
proof -
  have h: "table (new_RagnoteTable :: RefStore RagnoteTable) = None"
    by (simp add: new_RagnoteTable_def)
  show ?thesis
    using uninitialised_table_operations [OF h, where L = "ref_lance std_fields"
        and flt = "path_filter_double std_fields ''a.md''" and F = std_fields
        and query = "''query''" and limit = 10 and optFilter = None
        and filterString = "content_empty_filter std_fields"
        and data = "[entry ''a.md'' ''x'' 0 7]" and onProgress = None]
    by simp
qed

section \<open>Full-table materialisation\<close>

text \<open>
  Claim C7. On an initialised table whose \<^verbatim>\<open>countRows\<close> returns \<open>totalRows\<close>:
  when that is 0, \<^verbatim>\<open>getTableAsArray\<close> returns the empty list and the count is the
  only call the store has seen; otherwise, when both queries return, exactly two queries
  follow the count, the first filtering on a non-empty content and the second on an
  empty content, both with limit \<open>totalRows\<close>, and the result is the converted rows of
  the first followed by those of the second.
\<close>

theorem getTableAsArray_two_queries:
  assumes "table t = Some st"
    and "lance_countRows L st = (Inr totalRows, st1)"
    and "q1 = \<lparr>q_key = Vector (replicate 768 1), q_limit = Some totalRows,
                q_filter = Some (content_nonempty_filter F)\<rparr>"
    and "q2 = \<lparr>q_key = Vector (replicate 768 1), q_limit = Some totalRows,
                q_filter = Some (content_empty_filter F)\<rparr>"
  shows "(totalRows = 0 \<longrightarrow>
            getTableAsArray L F t =
              (Inr [], t\<lparr>table := Some st1, trace := trace t @ [Store CountRows None]\<rparr>)) \<and>
         (0 < totalRows \<longrightarrow>
          lance_execute L q1 st1 = (Inr raw1, st2) \<longrightarrow>
          lance_execute L q2 st2 = (Inr raw2, st3) \<longrightarrow>
            getTableAsArray L F t =
              (Inr (map (convertRawDBResultToRagnoteDBEntry F) raw1 @
                    map (convertRawDBResultToRagnoteDBEntry F) raw2),
               t\<lparr>table := Some st3,
                  trace := trace t @ [Store CountRows None, Store (Execute q1) None,
                                      Store (Execute q2) None]\<rparr>))"
  using assms(1,2) unfolding assms(3,4)
  by (simp add: getTableAsArray_def RagnoteTable_countRows_def RagnoteTable_filter_def
        store_call_def err_of_def Let_def)

theorem getTableAsArray_two_queries_witness:
  "getTableAsArray (ref_lance std_fields) std_fields (ref_table [empty_row, good_row] []) =
     (Inr [Some good_row, Some empty_row],
      (ref_table [empty_row, good_row] [])
        \<lparr>trace := [Store CountRows None,
           Store (Execute \<lparr>q_key = Vector (replicate 768 1), q_limit = Some 2,
                    q_filter = Some (content_nonempty_filter std_fields)\<rparr>) None,
           Store (Execute \<lparr>q_key = Vector (replicate 768 1), q_limit = Some 2,
                    q_filter = Some (content_empty_filter std_fields)\<rparr>) None]\<rparr>)"
proof -
  let ?st = "\<lparr>st_rows = [empty_row, good_row], st_failures = []\<rparr>"
  let ?q1 = "\<lparr>q_key = Vector (replicate 768 1), q_limit = Some 2,
                    q_filter = Some (content_nonempty_filter std_fields)\<rparr>"
  let ?q2 = "\<lparr>q_key = Vector (replicate 768 1), q_limit = Some 2,
                    q_filter = Some (content_empty_filter std_fields)\<rparr>"
  have h1: "table (ref_table [empty_row, good_row] []) = Some ?st"
    by (simp add: ref_table_def)
  have h2: "lance_countRows (ref_lance std_fields) ?st = (Inr 2, ?st)"
    by (simp add: ref_lance_def)
  have e1: "lance_execute (ref_lance std_fields) ?q1 ?st = (Inr [good_row], ?st)"
    by (simp add: ref_lance_def ref_select_def ref_matches_def content_nonempty_filter_def
          content_empty_filter_def std_fields_def good_row_def empty_row_def)
  have e2: "lance_execute (ref_lance std_fields) ?q2 ?st = (Inr [empty_row], ?st)"
    by (simp add: ref_lance_def ref_select_def ref_matches_def content_nonempty_filter_def
          content_empty_filter_def std_fields_def good_row_def empty_row_def)
  have c: "map (convertRawDBResultToRagnoteDBEntry std_fields) [good_row] = [Some good_row]"
    "map (convertRawDBResultToRagnoteDBEntry std_fields) [empty_row] = [Some empty_row]"
    by (simp_all add: convertRawDBResultToRagnoteDBEntry_def has_key_def std_fields_def
          good_row_def empty_row_def)
  show ?thesis
    using getTableAsArray_two_queries [OF h1 h2 refl refl, of std_fields "[good_row]" ?st
        "[empty_row]" ?st] e1 e2 c
    by (simp add: ref_table_def)
qed

section \<open>The single-path existence check\<close>

text \<open>
  The claim C8 says that \<^verbatim>\<open>isFileInDB\<close> issues two queries, one over the rows with a
  non-empty content and one over those with an empty content. On a table with one row
  for the path it issues one query, whose filter is the equality on the path alone.
\<close>

theorem isFileInDB_counterexample:
  "store_queries (new_events (ref_table [good_row] [])
     (snd (isFileInDB (ref_lance std_fields) std_fields (ref_table [good_row] []) ''a.md'' 1))) =
   [\<lparr>q_key = Vector (replicate 768 1), q_limit = Some 1,
     q_filter = Some (path_filter_single std_fields ''a.md'')\<rparr>]"
  by (simp add: isFileInDB_def RagnoteTable_filter_def store_call_def err_of_def Let_def
        ref_table_def ref_lance_def new_events_def)

text \<open>
  Claim C8, amended. With a non-zero row count, \<^verbatim>\<open>isFileInDB\<close> issues a single
  query, filtering on the equality of the note path with the given path in single
  quotes and limited by the row count it was given; it answers \<^verbatim>\<open>true\<close> exactly
  when the store returns at least one raw row, well-formed or not.
\<close>

theorem isFileInDB_single_query:
  assumes "table t = Some st" and "0 < tableCount"
    and "q = \<lparr>q_key = Vector (replicate 768 1), q_limit = Some tableCount,
               q_filter = Some (path_filter_single F filePath)\<rparr>"
    and "lance_execute L q st = (Inr rawResults, st')"
  shows "isFileInDB L F t filePath tableCount =
           (Inr (rawResults \<noteq> []),
            t\<lparr>table := Some st', trace := trace t @ [Store (Execute q) None]\<rparr>)"
  using assms(1,2,4) unfolding assms(3)
  by (simp add: isFileInDB_def RagnoteTable_filter_def store_call_def err_of_def Let_def)

theorem isFileInDB_single_query_witness:
  "isFileInDB (ref_lance std_fields) std_fields (ref_table [empty_row, good_row] []) ''a.md'' 2 =
     (Inr True,
      (ref_table [empty_row, good_row] [])
        \<lparr>trace := [Store (Execute \<lparr>q_key = Vector (replicate 768 1), q_limit = Some 2,
                    q_filter = Some (path_filter_single std_fields ''a.md'')\<rparr>) None]\<rparr>)"
proof -
  let ?st = "\<lparr>st_rows = [empty_row, good_row], st_failures = []\<rparr>"
  let ?q = "\<lparr>q_key = Vector (replicate 768 1), q_limit = Some 2,
                    q_filter = Some (path_filter_single std_fields ''a.md'')\<rparr>"
  have h1: "table (ref_table [empty_row, good_row] []) = Some ?st"
    by (simp add: ref_table_def)
  have h2: "0 < (2::nat)" by simp
  have e: "lance_execute (ref_lance std_fields) ?q ?st = (Inr [good_row], ?st)"
    by (simp add: ref_lance_def ref_select_def ref_matches_def content_nonempty_filter_def
          content_empty_filter_def path_filter_single_def path_filter_double_def
          std_fields_def good_row_def empty_row_def squote_def dquote_def)
  show ?thesis
    using isFileInDB_single_query [OF h1 h2 refl e] by (simp add: ref_table_def)
qed

section \<open>The empty-table short circuit\<close>

text \<open>
  Claim C9. Whatever the path, the store and the state of the table: when the row count
  handed to \<^verbatim>\<open>isFileInDB\<close> is 0, the answer is \<^verbatim>\<open>false\<close> and nothing has happened:
  the table and the trace are untouched, so no filter query was issued.
\<close>

theorem isFileInDB_empty_table:
  "isFileInDB L F t filePath 0 = (Inr False, t) \<and>
   store_queries (new_events t (snd (isFileInDB L F t filePath 0))) = []"
  by (simp add: isFileInDB_def new_events_def)

section \<open>Removing a tree\<close>




section \<open>Updating a note\<close>

lemma ref_add_result:
  "lance_add (ref_lance F) rs st =
     (if next_add_fails st
      then (Inl (Thrown ''add failed''), st\<lparr>st_failures := tl (st_failures st)\<rparr>)
      else (Inr (), st\<lparr>st_rows := st_rows st @ map (ref_embed F) rs,
                        st_failures := tl (st_failures st)\<rparr>))"
  by (cases "st_failures st") (simp_all add: ref_lance_def ref_add_def next_add_fails_def)

lemma RagnoteTable_add_single:
  "table t = Some st \<Longrightarrow>
   RagnoteTable_add L [e] None t =
     (Inr (), t\<lparr>table := Some (snd (lance_add L [e] st)),
                trace := trace t @ [Store (Add [e]) (err_of (fst (lance_add L [e] st)))]\<rparr>)"
  by (simp add: RagnoteTable_add_def chunk_loop_unfold store_call_Some)

lemma updateNoteInTable_calls:
  assumes "table dbTable = Some st"
  shows "updateNoteInTable L F now dbTable filePath content =
     (case lance_delete L (path_filter_double F filePath) st of
        (Inl e, st1) \<Rightarrow>
          (Inl e, dbTable\<lparr>table := Some st1,
             trace := trace dbTable @ [Store (Delete (path_filter_double F filePath)) (Some e)]\<rparr>)
      | (Inr u, st1) \<Rightarrow>
          (Inr (), dbTable\<lparr>table := Some (snd (lance_add L [entry filePath content 0 now] st1)),
             trace := trace dbTable @
               [Store (Delete (path_filter_double F filePath)) None,
                Store (Add [entry filePath content 0 now])
                  (err_of (fst (lance_add L [entry filePath content 0 now] st1)))]\<rparr>))"
proof -
  let ?flt = "path_filter_double F filePath"
  obtain rd st1 where d: "lance_delete L ?flt st = (rd, st1)"
    by (cases "lance_delete L ?flt st")
  define t1 where "t1 = dbTable\<lparr>table := Some st1,
      trace := trace dbTable @ [Store (Delete ?flt) (err_of rd)]\<rparr>"
  have call: "RagnoteTable_delete L ?flt dbTable = (rd, t1)"
    using assms d by (simp add: RagnoteTable_delete_def store_call_Some t1_def)
  show ?thesis
  proof (cases rd)
    case (Inl e)
    then show ?thesis using call d by (simp add: updateNoteInTable_def err_of_def t1_def)
  next
    case (Inr u)
    have "table t1 = Some st1" by (simp add: t1_def)
    from RagnoteTable_add_single [OF this, of L "entry filePath content 0 now"]
    show ?thesis using call d Inr by (simp add: updateNoteInTable_def err_of_def t1_def)
  qed
qed

text \<open>
  The claim C5 says that after \<^verbatim>\<open>updateNoteInTable\<close> exactly one row exists for the
  path, with a timestamp later than that of any prior row. When the store's \<^verbatim>\<open>add\<close>
  raises, the exception is swallowed by the write loop, \<^verbatim>\<open>updateNoteInTable\<close> returns
  normally and no row is left for the path. And the timestamp is what the clock reads:
  with a clock that reads 5 and a prior row stamped 7, the new row is stamped 5.
\<close>

theorem updateNoteInTable_counterexample:
  "updateNoteInTable (ref_lance std_fields) std_fields 9 (ref_table [good_row] [True])
       ''a.md'' ''new'' =
     (Inr (),
      \<lparr>table = Some \<lparr>st_rows = [], st_failures = []\<rparr>,
       trace = [Store (Delete (path_filter_double std_fields ''a.md'')) None,
                Store (Add [entry ''a.md'' ''new'' 0 9]) (Some (Thrown ''add failed''))]\<rparr>) \<and>
   get_prop good_row ''timeadded'' = JDate 7 \<and>
   updateNoteInTable (ref_lance std_fields) std_fields 5 (ref_table [good_row] [])
       ''a.md'' ''new'' =
     (Inr (),
      \<lparr>table = Some \<lparr>st_rows = [entry ''a.md'' ''new'' 0 5 @ [(''vector'', JVector [])]],
                      st_failures = []\<rparr>,
       trace = [Store (Delete (path_filter_double std_fields ''a.md'')) None,
                Store (Add [entry ''a.md'' ''new'' 0 5]) None]\<rparr>)"
  by code_simp

lemma keeps_fields_entry:
  assumes "keeps_fields (entry p c i d) stored"
  shows "get_prop stored ''notepath'' = JString p"
    and "get_prop stored ''content'' = JString c"
    and "get_prop stored ''subnoteindex'' = JNumber i"
    and "get_prop stored ''timeadded'' = JDate d"
  using assms by (simp_all add: keeps_fields_def entry_def get_prop_def)

text \<open>
  Claim C5, amended. On an initialised table over any store, \<^verbatim>\<open>updateNoteInTable\<close>
  first issues one delete with the filter that equates the note path with the given path
  in double quotes. When that delete raises, the exception is the result and nothing
  else reaches the store. When it returns, one \<^verbatim>\<open>add\<close> follows, of the single record
  made of the path, the content, sub-note index 0 and the clock reading \<open>now\<close>;
  \<^verbatim>\<open>updateNoteInTable\<close> then returns normally whatever the outcome of that \<^verbatim>\<open>add\<close>,
  and the table is bound to the state the store reached. Read through any view
  \<open>rows_of\<close> of the store's rows: if the delete left no row for the path and the
  \<^verbatim>\<open>add\<close> returned having appended one row that keeps the record's fields, the
  table holds exactly that row for the path, with the given content, sub-note index 0
  and the clock reading as timestamp; if the \<^verbatim>\<open>add\<close> raised and inserted nothing, the
  table holds no row for the path.
\<close>

theorem updateNoteInTable_any_store:
  assumes "table dbTable = Some st"
    and "lance_delete L (path_filter_double F filePath) st = (rd, st1)"
    and "lance_add L [entry filePath content 0 now] st1 = (ra, st2)"
    and "updateNoteInTable L F now dbTable filePath content = (r, t')"
  shows "(\<forall>e. rd = Inl e \<longrightarrow>
            r = Inl e \<and>
            t' = dbTable\<lparr>table := Some st1,
                   trace := trace dbTable @
                     [Store (Delete (path_filter_double F filePath)) (Some e)]\<rparr>) \<and>
         (rd = Inr () \<longrightarrow>
            r = Inr () \<and>
            t' = dbTable\<lparr>table := Some st2,
                   trace := trace dbTable @
                     [Store (Delete (path_filter_double F filePath)) None,
                      Store (Add [entry filePath content 0 now]) (err_of ra)]\<rparr>) \<and>
         (rd = Inr () \<and> ra = Inr () \<and>
          rows_for_path filePath (rows_of st1) = [] \<and>
          rows_of st2 = rows_of st1 @ [stored] \<and>
          keeps_fields (entry filePath content 0 now) stored \<longrightarrow>
            (\<exists>st'. table t' = Some st' \<and> rows_for_path filePath (rows_of st') = [stored]) \<and>
            get_prop stored ''content'' = JString content \<and>
            get_prop stored ''subnoteindex'' = JNumber 0 \<and>
            get_prop stored ''timeadded'' = JDate now) \<and>
         (rd = Inr () \<and> ra \<noteq> Inr () \<and>
          rows_for_path filePath (rows_of st1) = [] \<and>
          rows_of st2 = rows_of st1 \<longrightarrow>
            (\<exists>st'. table t' = Some st' \<and> rows_for_path filePath (rows_of st') = []))"
proof -
  note calls = updateNoteInTable_calls [OF assms(1), of L F now filePath content,
      unfolded assms(2) assms(4)]
  have failed: "r = Inl e \<and>
            t' = dbTable\<lparr>table := Some st1,
                   trace := trace dbTable @
                     [Store (Delete (path_filter_double F filePath)) (Some e)]\<rparr>"
    if "rd = Inl e" for e
    using calls that by simp
  have wrote: "r = Inr () \<and>
            t' = dbTable\<lparr>table := Some st2,
                   trace := trace dbTable @
                     [Store (Delete (path_filter_double F filePath)) None,
                      Store (Add [entry filePath content 0 now]) (err_of ra)]\<rparr>"
    if "rd = Inr ()"
    using calls that assms(3) by simp
  have tab: "table t' = Some st2" if "rd = Inr ()"
    using wrote [OF that] by simp
  have one: "(\<exists>st'. table t' = Some st' \<and> rows_for_path filePath (rows_of st') = [stored]) \<and>
            get_prop stored ''content'' = JString content \<and>
            get_prop stored ''subnoteindex'' = JNumber 0 \<and>
            get_prop stored ''timeadded'' = JDate now"
    if h: "rd = Inr () \<and> ra = Inr () \<and>
          rows_for_path filePath (rows_of st1) = [] \<and>
          rows_of st2 = rows_of st1 @ [stored] \<and>
          keeps_fields (entry filePath content 0 now) stored"
  proof -
    note k = keeps_fields_entry [of filePath content 0 now stored]
    have "rows_for_path filePath (rows_of st2) = [stored]"
      using h k(1) by (simp add: rows_for_path_def)
    then show ?thesis using tab h k by simp
  qed
  have none: "\<exists>st'. table t' = Some st' \<and> rows_for_path filePath (rows_of st') = []"
    if h: "rd = Inr () \<and> ra \<noteq> Inr () \<and>
          rows_for_path filePath (rows_of st1) = [] \<and> rows_of st2 = rows_of st1"
    using tab h by simp
  show ?thesis using failed wrote one none by blast
qed

theorem updateNoteInTable_any_store_witness:
  "updateNoteInTable (ref_lance std_fields) std_fields 9
       (ref_table [good_row, empty_row] []) ''a.md'' ''new'' =
     (Inr (),
      \<lparr>table = Some \<lparr>st_rows = [empty_row, entry ''a.md'' ''new'' 0 9 @ [(''vector'', JVector [])]],
                      st_failures = []\<rparr>,
       trace = [Store (Delete (path_filter_double std_fields ''a.md'')) None,
                Store (Add [entry ''a.md'' ''new'' 0 9]) None]\<rparr>) \<and>
   map_option (\<lambda>st'. rows_for_path ''a.md'' (st_rows st'))
     (table (snd (updateNoteInTable (ref_lance std_fields) std_fields 9
        (ref_table [good_row, empty_row] []) ''a.md'' ''new''))) =
     Some [entry ''a.md'' ''new'' 0 9 @ [(''vector'', JVector [])]] \<and>
   get_prop (entry ''a.md'' ''new'' 0 9 @ [(''vector'', JVector [])]) ''timeadded'' = JDate 9"
proof -
  let ?stored = "entry ''a.md'' ''new'' 0 9 @ [(''vector'', JVector [])]"
  let ?st = "\<lparr>st_rows = [good_row, empty_row], st_failures = []\<rparr>"
  let ?st1 = "\<lparr>st_rows = [empty_row], st_failures = []\<rparr>"
  let ?st2 = "\<lparr>st_rows = [empty_row, ?stored], st_failures = []\<rparr>"
  have h1: "table (ref_table [good_row, empty_row] []) = Some ?st"
    by (simp add: ref_table_def)
  have h2: "lance_delete (ref_lance std_fields) (path_filter_double std_fields ''a.md'') ?st =
              (Inr (), ?st1)"
    by code_simp
  have h3: "lance_add (ref_lance std_fields) [entry ''a.md'' ''new'' 0 9] ?st1 = (Inr (), ?st2)"
    by code_simp
  have s1: "rows_for_path ''a.md'' (st_rows ?st1) = []" by code_simp
  have s2: "st_rows ?st2 = st_rows ?st1 @ [?stored]" by simp
  have s3: "keeps_fields (entry ''a.md'' ''new'' 0 9) ?stored" by code_simp
  show ?thesis
    using updateNoteInTable_any_store [where rows_of = st_rows and stored = ?stored,
        OF h1 h2 h3 surjective_pairing] s1 s2 s3
    by (auto simp: ref_table_def prod_eq_iff err_of_def)
qed

section \<open>Repopulating twice\<close>

lemma table_update_same: "table t = Some st \<Longrightarrow> t\<lparr>table := Some st, trace := X\<rparr> = t\<lparr>trace := X\<rparr>"
  by (cases t) simp

lemma ref_filter_result:
  assumes "table t = Some st" and "length (st_rows st) \<le> n"
  shows "RagnoteTable_filter (ref_lance F) F flt n t =
     (Inr (map (convertRawDBResultToRagnoteDBEntry F) (filter (ref_matches F flt) (st_rows st))),
      t\<lparr>trace := trace t @ [Store (Execute \<lparr>q_key = Vector (replicate 768 1), q_limit = Some n,
                                     q_filter = Some flt\<rparr>) None]\<rparr>)"
proof -
  have "length (filter (ref_matches F flt) (st_rows st)) \<le> n"
    using assms(2) length_filter_le [of "ref_matches F flt" "st_rows st"] by linarith
  then show ?thesis
    using assms(1)
    by (simp add: RagnoteTable_filter_def store_call_Some ref_lance_def ref_select_def
          err_of_def Let_def table_update_same)
qed

lemma ref_countRows_result:
  assumes "table t = Some st"
  shows "RagnoteTable_countRows (ref_lance F) t =
           (Inr (length (st_rows st)), t\<lparr>trace := trace t @ [Store CountRows None]\<rparr>)"
  using assms
  by (simp add: RagnoteTable_countRows_def store_call_Some ref_lance_def err_of_def
        table_update_same)

lemma ref_getTableAsArray:
  assumes "table t = Some st"
  shows "\<exists>evs. getTableAsArray (ref_lance F) F t =
                 (Inr (materialize F (st_rows st)), t\<lparr>trace := trace t @ evs\<rparr>) \<and>
               store_adds evs = [] \<and> add_outcomes evs = []"
proof (cases "st_rows st = []")
  case True
  then show ?thesis
    using assms
    by (intro exI [of _ "[Store CountRows None]"])
       (simp add: getTableAsArray_def ref_countRows_result materialize_def)
next
  case False
  let ?n = "length (st_rows st)"
  let ?q1 = "\<lparr>q_key = Vector (replicate 768 1), q_limit = Some ?n,
              q_filter = Some (content_nonempty_filter F)\<rparr>"
  let ?q2 = "\<lparr>q_key = Vector (replicate 768 1), q_limit = Some ?n,
              q_filter = Some (content_empty_filter F)\<rparr>"
  let ?c = "Store CountRows None"
  let ?t1 = "t\<lparr>trace := trace t @ [?c]\<rparr>"
  let ?t2 = "t\<lparr>trace := trace t @ [?c, Store (Execute ?q1) None]\<rparr>"
  let ?t3 = "t\<lparr>trace := trace t @ [?c, Store (Execute ?q1) None, Store (Execute ?q2) None]\<rparr>"
  have t1: "table ?t1 = Some st" and t2: "table ?t2 = Some st" using assms by simp_all
  have n: "?n \<noteq> 0" using False by simp
  have c: "RagnoteTable_countRows (ref_lance F) t = (Inr ?n, ?t1)"
    by (rule ref_countRows_result [OF assms])
  have f1: "RagnoteTable_filter (ref_lance F) F (content_nonempty_filter F) ?n ?t1 =
      (Inr (map (convertRawDBResultToRagnoteDBEntry F)
             (filter (ref_matches F (content_nonempty_filter F)) (st_rows st))), ?t2)"
    using ref_filter_result [OF t1 order_refl, of F "content_nonempty_filter F"] by simp
  have f2: "RagnoteTable_filter (ref_lance F) F (content_empty_filter F) ?n ?t2 =
      (Inr (map (convertRawDBResultToRagnoteDBEntry F)
             (filter (ref_matches F (content_empty_filter F)) (st_rows st))), ?t3)"
    using ref_filter_result [OF t2 order_refl, of F "content_empty_filter F"] by simp
  show ?thesis
    using n
    by (intro exI [of _ "[?c, Store (Execute ?q1) None, Store (Execute ?q2) None]"])
       (simp add: getTableAsArray_def c f1 f2 materialize_def)
qed

lemma ref_add_loop_rows:
  assumes "add_loop (ref_lance F) onProgress M chunks idx t = (Inr (), t')"
    and "table t = Some st"
  shows "\<exists>st' evs. table t' = Some st' \<and> trace t' = trace t @ evs \<and>
           ((\<forall>out\<in>set (add_outcomes evs). out = None) \<longrightarrow>
              st_rows st' = st_rows st @ map (ref_embed F) (concat chunks))"
  using assms
proof (induction chunks arbitrary: idx t st)
  case Nil
  then show ?case by simp
next
  case (Cons chunk rest)
  define res where "res = fst (lance_add (ref_lance F) chunk st)"
  define st1 where "st1 = snd (lance_add (ref_lance F) chunk st)"
  define t1 where "t1 = t\<lparr>table := Some st1, trace := trace t @ [Store (Add chunk) (err_of res)]\<rparr>"
  have call: "store_call (Add chunk) (lance_add (ref_lance F) chunk) t = (res, t1)"
    using Cons.prems(2) by (simp add: store_call_Some t1_def res_def st1_def)
  have ok: "err_of res = None \<Longrightarrow> st_rows st1 = st_rows st @ map (ref_embed F) chunk"
    unfolding res_def st1_def
    by (simp add: ref_add_result err_of_def split: if_splits)
  obtain t2 where t2: "add_loop (ref_lance F) onProgress M rest (Suc idx) t2 = (Inr (), t')"
    "table t2 = Some st1"
    "\<exists>pre. trace t2 = trace t @ Store (Add chunk) (err_of res) # pre \<and> add_outcomes pre = []"
  proof (cases onProgress)
    case None
    have "add_loop (ref_lance F) onProgress M rest (Suc idx) t1 = (Inr (), t')"
      using Cons.prems(1) call None by simp
    moreover have "table t1 = Some st1" by (simp add: t1_def)
    moreover have "\<exists>pre. trace t1 = trace t @ Store (Add chunk) (err_of res) # pre \<and>
                         add_outcomes pre = []"
      by (intro exI [of _ "[]"]) (simp add: t1_def)
    ultimately show ?thesis by (rule that)
  next
    case (Some cb)
    define p where "p = rat_of_nat (Suc idx) / rat_of_nat M"
    define t2 where "t2 = t1\<lparr>trace := trace t1 @ [Progress p]\<rparr>"
    have "cb p = None \<and> add_loop (ref_lance F) onProgress M rest (Suc idx) t2 = (Inr (), t')"
      using Cons.prems(1) call Some
      by (cases "cb p") (simp_all add: Let_def t2_def p_def)
    then have "add_loop (ref_lance F) onProgress M rest (Suc idx) t2 = (Inr (), t')" by simp
    moreover have "table t2 = Some st1" by (simp add: t2_def t1_def)
    moreover have "\<exists>pre. trace t2 = trace t @ Store (Add chunk) (err_of res) # pre \<and>
                         add_outcomes pre = []"
      by (intro exI [of _ "[Progress p]"]) (simp add: t2_def t1_def)
    ultimately show ?thesis by (rule that)
  qed
  from t2(3) obtain pre where pre: "trace t2 = trace t @ Store (Add chunk) (err_of res) # pre"
    "add_outcomes pre = []" by blast
  from Cons.IH [OF t2(1,2)] obtain st' evs where
    ih: "table t' = Some st'" "trace t' = trace t2 @ evs"
      "(\<forall>out\<in>set (add_outcomes evs). out = None) \<longrightarrow>
         st_rows st' = st_rows st1 @ map (ref_embed F) (concat rest)"
    by blast
  let ?evs = "Store (Add chunk) (err_of res) # pre @ evs"
  have tr: "trace t' = trace t @ ?evs" using ih(2) pre(1) by simp
  have out: "add_outcomes ?evs = err_of res # add_outcomes evs"
    using pre(2) by (simp add: add_outcomes_append)
  have "(\<forall>out\<in>set (add_outcomes ?evs). out = None) \<longrightarrow>
          st_rows st' = st_rows st @ map (ref_embed F) (concat (chunk # rest))"
    unfolding out using ih(3) ok by simp
  then show ?case using ih(1) tr by blast
qed


lemma maybeRePopulateTable_success:
  assumes "maybeRePopulateTable L F GetFilesInfoList readFileSync clock t dir exts onProgress =
             (Inr (), t')"
  shows "\<exists>files arr ta paths tb tc n.
           GetFilesInfoList dir exts = Inr files \<and>
           getTableAsArray L F t = (Inr arr, ta) \<and>
           notepaths arr = Inr paths \<and>
           RagnoteTable_add L (missing_records readFileSync clock paths files) onProgress ta =
             (Inr (), tb) \<and>
           (tc = tb \<or> tc = tb\<lparr>trace := trace tb @ [Progress 1]\<rparr>) \<and>
           RagnoteTable_countRows L tc = (Inr n, t')"
proof -
  obtain files where files: "GetFilesInfoList dir exts = Inr files"
    using assms by (cases "GetFilesInfoList dir exts") (simp_all add: maybeRePopulateTable_def)
  obtain ra ta where gta: "getTableAsArray L F t = (ra, ta)"
    by (cases "getTableAsArray L F t")
  obtain arr where arr: "ra = Inr arr"
    using assms files gta by (cases ra) (simp_all add: maybeRePopulateTable_def)
  obtain paths where paths: "notepaths arr = Inr paths"
    using assms files gta arr
    by (cases "notepaths arr") (simp_all add: maybeRePopulateTable_def)
  let ?data = "missing_records readFileSync clock paths files"
  obtain rb tb where add: "RagnoteTable_add L ?data onProgress ta = (rb, tb)"
    by (cases "RagnoteTable_add L ?data onProgress ta")
  have rb: "rb = Inr ()"
    using assms files gta arr paths add
    by (cases rb) (simp_all add: maybeRePopulateTable_def)
  define tc where "tc = (case onProgress of None \<Rightarrow> tb
                         | Some cb \<Rightarrow> tb\<lparr>trace := trace tb @ [Progress 1]\<rparr>)"
  have tc: "tc = tb \<or> tc = tb\<lparr>trace := trace tb @ [Progress 1]\<rparr>"
    by (cases onProgress) (simp_all add: tc_def)
  obtain rc tc' where cnt: "RagnoteTable_countRows L tc = (rc, tc')"
    by (cases "RagnoteTable_countRows L tc")
  have "\<exists>n. rc = Inr n \<and> tc' = t'"
    using assms files gta arr paths add rb cnt
    by (cases onProgress; cases rc)
       (auto simp: maybeRePopulateTable_def tc_def split: option.splits)
  then show ?thesis using files gta arr paths add rb tc cnt by blast
qed

lemma countRows_no_adds:
  "\<exists>evs. trace (snd (RagnoteTable_countRows L t)) = trace t @ evs \<and> store_adds evs = []"
proof (cases "table t")
  case None
  then show ?thesis by (simp add: RagnoteTable_countRows_def store_call_None)
next
  case (Some st)
  then show ?thesis
    by (intro exI [of _ "[Store CountRows (err_of (fst (lance_countRows L st)))]"])
       (simp add: RagnoteTable_countRows_def store_call_Some)
qed

lemma maybeRePopulateTable_nothing_missing:
  assumes "GetFilesInfoList dir exts = Inr files"
    and "getTableAsArray L F t = (Inr arr, ta)"
    and "trace ta = trace t @ evs" and "store_adds evs = []"
    and "\<And>paths. notepaths arr = Inr paths \<Longrightarrow> missing_records readFileSync clock paths files = []"
  shows "store_adds (new_events t
           (snd (maybeRePopulateTable L F GetFilesInfoList readFileSync clock t dir exts
                   onProgress))) = []"
proof (cases "notepaths arr")
  case (Inl e)
  then have "snd (maybeRePopulateTable L F GetFilesInfoList readFileSync clock t dir exts
                   onProgress) = ta"
    using assms(1,2) by (simp add: maybeRePopulateTable_def)
  then show ?thesis using assms(3,4) by (simp add: new_events_append)
next
  case (Inr paths)
  have none_missing: "missing_records readFileSync clock paths files = []"
    using Inr by (rule assms(5))
  define tc where "tc = (case onProgress of None \<Rightarrow> ta
                         | Some cb \<Rightarrow> ta\<lparr>trace := trace ta @ [Progress 1]\<rparr>)"
  have tc: "\<exists>evs'. trace tc = trace t @ evs' \<and> store_adds evs' = []"
  proof (cases onProgress)
    case None
    then show ?thesis using assms(3,4) by (simp add: tc_def)
  next
    case (Some cb)
    then show ?thesis
      using assms(3,4)
      by (intro exI [of _ "evs @ [Progress 1]"]) (simp add: tc_def store_adds_append)
  qed
  then obtain evs' where evs': "trace tc = trace t @ evs'" "store_adds evs' = []" by blast
  obtain evc where evc: "trace (snd (RagnoteTable_countRows L tc)) = trace tc @ evc"
    "store_adds evc = []"
    using countRows_no_adds [of L tc] by blast
  let ?run = "maybeRePopulateTable L F GetFilesInfoList readFileSync clock t dir exts onProgress"
  have add0: "RagnoteTable_add L (missing_records readFileSync clock paths files) cb ta =
                (Inr (), ta)" for cb
    unfolding none_missing by (rule RagnoteTable_add_empty)
  have "snd ?run = tc \<or> snd ?run = snd (RagnoteTable_countRows L tc)"
    using assms(1,2) Inr
    by (cases onProgress)
       (auto simp: maybeRePopulateTable_def add0 tc_def
             split: option.splits prod.splits sum.splits)
  then show ?thesis
  proof
    assume "snd ?run = tc"
    then show ?thesis using evs' by (simp add: new_events_append)
  next
    assume "snd ?run = snd (RagnoteTable_countRows L tc)"
    then have "trace (snd ?run) = trace t @ (evs' @ evc)" using evs'(1) evc(1) by simp
    then have "new_events t (snd ?run) = evs' @ evc" by (rule new_events_append)
    then show ?thesis using evs'(2) evc(2) by (simp add: store_adds_append)
  qed
qed


lemma notepaths_Inr_iff: "(\<exists>ps. notepaths xs = Inr ps) \<longleftrightarrow> None \<notin> set xs"
  by (induction xs rule: notepaths.induct) (auto split: sum.splits)

lemma notepaths_set:
  "notepaths xs = Inr ps \<Longrightarrow> set ps = {get_prop r ''notepath'' |r. Some r \<in> set xs}"
proof (induction xs arbitrary: ps rule: notepaths.induct)
  case 1
  then show ?case by simp
next
  case (2 xs)
  then show ?case by simp
next
  case (3 x xs)
  from "3.prems" obtain qs where qs: "notepaths xs = Inr qs" "ps = get_prop x ''notepath'' # qs"
    by (auto split: sum.splits)
  from "3.IH" [OF qs(1)] show ?case unfolding qs(2) by auto
qed

lemma convert_Some: "convertRawDBResultToRagnoteDBEntry F r' = Some r \<Longrightarrow> r' = r"
  by (simp add: convertRawDBResultToRagnoteDBEntry_def split: if_splits)

lemma convert_image:
  "Some r \<in> convertRawDBResultToRagnoteDBEntry F ` X \<longleftrightarrow>
     r \<in> X \<and> convertRawDBResultToRagnoteDBEntry F r = Some r"
proof
  assume "Some r \<in> convertRawDBResultToRagnoteDBEntry F ` X"
  then obtain r' where r': "r' \<in> X" "convertRawDBResultToRagnoteDBEntry F r' = Some r"
    by force
  from convert_Some [OF r'(2)] r' show "r \<in> X \<and> convertRawDBResultToRagnoteDBEntry F r = Some r"
    by simp
next
  assume "r \<in> X \<and> convertRawDBResultToRagnoteDBEntry F r = Some r"
  then show "Some r \<in> convertRawDBResultToRagnoteDBEntry F ` X" by force
qed

lemma materialize_Some:
  "Some r \<in> set (materialize F rs) \<longleftrightarrow>
     r \<in> set rs \<and>
     (ref_matches F (content_nonempty_filter F) r \<or> ref_matches F (content_empty_filter F) r) \<and>
     convertRawDBResultToRagnoteDBEntry F r = Some r"
  unfolding materialize_def set_append set_map Un_iff convert_image by auto

lemma materialize_None:
  "None \<in> set (materialize F rs) \<longleftrightarrow>
     (\<exists>r\<in>set rs.
        (ref_matches F (content_nonempty_filter F) r \<or> ref_matches F (content_empty_filter F) r) \<and>
        convertRawDBResultToRagnoteDBEntry F r = None)"
  by (auto simp: materialize_def image_iff)

lemma embedded_record_eq:
  "ref_embed std_fields (convertFileTypeToDBType readFileSync d file) =
     entry (path file) (readFile readFileSync (path file)) 0 d @ [(''vector'', JVector [])]"
  by (simp add: convertFileTypeToDBType_def ref_embed_def has_key_def entry_def std_fields_def)

lemma embedded_record:
  "convertRawDBResultToRagnoteDBEntry std_fields
     (ref_embed std_fields (convertFileTypeToDBType readFileSync d file)) =
   Some (ref_embed std_fields (convertFileTypeToDBType readFileSync d file))"
  "ref_matches std_fields (content_nonempty_filter std_fields)
     (ref_embed std_fields (convertFileTypeToDBType readFileSync d file)) \<or>
   ref_matches std_fields (content_empty_filter std_fields)
     (ref_embed std_fields (convertFileTypeToDBType readFileSync d file))"
  "get_prop (ref_embed std_fields (convertFileTypeToDBType readFileSync d file)) ''notepath'' =
   JString (path file)"
  unfolding embedded_record_eq
  by (simp_all add: convertRawDBResultToRagnoteDBEntry_def has_key_def entry_def std_fields_def
        ref_matches_def content_nonempty_filter_def content_empty_filter_def get_prop_def)

lemma enumerate_mem: "x \<in> set xs \<Longrightarrow> \<exists>i. (i, x) \<in> set (enumerate 0 xs)"
proof -
  assume "x \<in> set xs"
  then obtain i where "i < length xs" "xs ! i = x" by (auto simp: in_set_conv_nth)
  then have "(i, x) \<in> set (enumerate 0 xs)" by (simp add: in_set_enumerate_eq)
  then show ?thesis ..
qed

lemma missing_records_mem:
  assumes "fi \<in> set files" and "JString (path fi) \<notin> set paths"
  shows "\<exists>d. convertFileTypeToDBType readFileSync d fi \<in>
               set (missing_records readFileSync clock paths files)"
proof -
  have "fi \<in> set (filter (\<lambda>fileInfo. JString (path fileInfo) \<notin> set paths) files)"
    using assms by simp
  from enumerate_mem [OF this] obtain i where i:
    "(i, fi) \<in> set (enumerate 0 (filter (\<lambda>fileInfo. JString (path fileInfo) \<notin> set paths) files))"
    ..
  have "convertFileTypeToDBType readFileSync (clock i) fi \<in>
               set (missing_records readFileSync clock paths files)"
    unfolding missing_records_def set_map
    using imageI [OF i, of "\<lambda>(i, file). convertFileTypeToDBType readFileSync (clock i) file"]
    by simp
  then show ?thesis ..
qed

lemma missing_records_embedded:
  assumes "r \<in> set (map (ref_embed std_fields) (missing_records readFileSync clock paths files))"
  shows "convertRawDBResultToRagnoteDBEntry std_fields r = Some r"
proof -
  from assms obtain e where e: "e \<in> set (missing_records readFileSync clock paths files)"
    "r = ref_embed std_fields e"
    by auto
  from e(1) obtain i fi where "e = convertFileTypeToDBType readFileSync (clock i) fi"
    unfolding missing_records_def set_map by (auto simp: case_prod_beta)
  then show ?thesis unfolding e(2) by (simp add: embedded_record(1))
qed

lemma second_materialisation:
  assumes "notepaths (materialize std_fields rows0) = Inr paths1"
    and rows1_def: "rows1 = rows0 @ map (ref_embed std_fields)
                               (missing_records readFileSync clock paths1 files)"
  shows "\<exists>paths2. notepaths (materialize std_fields rows1) = Inr paths2"
    and "notepaths (materialize std_fields rows1) = Inr paths2 \<Longrightarrow>
         missing_records readFileSync' clock' paths2 files = []"
proof -
  have no_null0: "None \<notin> set (materialize std_fields rows0)"
    using assms(1) notepaths_Inr_iff by blast
  have "None \<notin> set (materialize std_fields rows1)"
  proof
    assume "None \<in> set (materialize std_fields rows1)"
    then obtain r where r: "r \<in> set rows1"
      "ref_matches std_fields (content_nonempty_filter std_fields) r \<or>
       ref_matches std_fields (content_empty_filter std_fields) r"
      "convertRawDBResultToRagnoteDBEntry std_fields r = None"
      unfolding materialize_None by blast
    from r(1) have "r \<in> set rows0 \<or>
        r \<in> set (map (ref_embed std_fields) (missing_records readFileSync clock paths1 files))"
      by (simp add: rows1_def)
    then show False
    proof
      assume "r \<in> set rows0"
      then have "None \<in> set (materialize std_fields rows0)"
        unfolding materialize_None using r(2,3) by blast
      then show False using no_null0 by simp
    next
      assume "r \<in> set (map (ref_embed std_fields)
                          (missing_records readFileSync clock paths1 files))"
      then show False using missing_records_embedded r(3) by fastforce
    qed
  qed
  then show "\<exists>paths2. notepaths (materialize std_fields rows1) = Inr paths2"
    by (simp add: notepaths_Inr_iff)
next
  assume p2: "notepaths (materialize std_fields rows1) = Inr paths2"
  have "JString (path fi) \<in> set paths2" if fi: "fi \<in> set files" for fi
  proof (cases "JString (path fi) \<in> set paths1")
    case True
    then obtain r where r: "Some r \<in> set (materialize std_fields rows0)"
      "get_prop r ''notepath'' = JString (path fi)"
      unfolding notepaths_set [OF assms(1)] by auto
    from r(1) have "Some r \<in> set (materialize std_fields rows1)"
      unfolding materialize_Some by (simp add: rows1_def)
    then show ?thesis unfolding notepaths_set [OF p2] using r(2) by force
  next
    case False
    from missing_records_mem [OF fi False, of readFileSync clock]
    obtain d where d: "convertFileTypeToDBType readFileSync d fi \<in>
               set (missing_records readFileSync clock paths1 files)" by blast
    let ?r = "ref_embed std_fields (convertFileTypeToDBType readFileSync d fi)"
    have "?r \<in> set rows1" using d by (simp add: rows1_def)
    then have "Some ?r \<in> set (materialize std_fields rows1)"
      unfolding materialize_Some using embedded_record(1,2) by blast
    then show ?thesis
      unfolding notepaths_set [OF p2] using embedded_record(3) [of readFileSync d fi] by force
  qed
  then have "filter (\<lambda>fileInfo. JString (path fileInfo) \<notin> set paths2) files = []"
    by (simp add: filter_empty_conv)
  then show "missing_records readFileSync' clock' paths2 files = []"
    by (simp add: missing_records_def)
qed

text \<open>
  Claim C4. Take a table over the reference store and a run of
  \<^verbatim>\<open>maybeRePopulateTable\<close> that returned normally and whose store writes all
  succeeded. A second run on the table it left, with the same lister, directory and
  extensions (the clock and the callback may differ), issues no store write: the
  materialisation of the table succeeds, and the list of records to add that is computed
  from it is empty.
\<close>

theorem maybeRePopulateTable_second_run:
  assumes "table t0 = Some s0"
    and "maybeRePopulateTable (ref_lance std_fields) std_fields GetFilesInfoList readFileSync
           clock t0 dir exts onProgress = (Inr (), t1)"
    and "\<forall>out\<in>set (add_outcomes (new_events t0 t1)). out = None"
    and "maybeRePopulateTable (ref_lance std_fields) std_fields GetFilesInfoList readFileSync
           clock' t1 dir exts onProgress' = (r2, t2)"
  shows "store_adds (new_events t1 t2) = [] \<and>
         (\<exists>files tableArray ta tableArrayPaths.
            GetFilesInfoList dir exts = Inr files \<and>
            getTableAsArray (ref_lance std_fields) std_fields t1 = (Inr tableArray, ta) \<and>
            notepaths tableArray = Inr tableArrayPaths \<and>
            missing_records readFileSync clock' tableArrayPaths files = [])"
proof -
  let ?L = "ref_lance std_fields"
  from maybeRePopulateTable_success [OF assms(2)] obtain files arr ta paths tb tc n where
    files: "GetFilesInfoList dir exts = Inr files"
    and gta: "getTableAsArray ?L std_fields t0 = (Inr arr, ta)"
    and paths: "notepaths arr = Inr paths"
    and add: "RagnoteTable_add ?L (missing_records readFileSync clock paths files) onProgress ta =
                (Inr (), tb)"
    and tc: "tc = tb \<or> tc = tb\<lparr>trace := trace tb @ [Progress 1]\<rparr>"
    and cnt: "RagnoteTable_countRows ?L tc = (Inr n, t1)"
    by blast
  let ?data = "missing_records readFileSync clock paths files"
  from ref_getTableAsArray [OF assms(1), of std_fields] gta obtain evsA where
    arr: "arr = materialize std_fields (st_rows s0)"
    and ta: "ta = t0\<lparr>trace := trace t0 @ evsA\<rparr>"
    and evsA: "add_outcomes evsA = []"
    by auto
  have ta_table: "table ta = Some s0" using assms(1) by (simp add: ta)
  have loop: "add_loop ?L onProgress (length (chunk_loop ?data 0)) (chunk_loop ?data 0) 0 ta =
                (Inr (), tb)"
    using add by (simp add: RagnoteTable_add_def Let_def)
  from ref_add_loop_rows [OF loop ta_table] obtain sb evsB where
    sb: "table tb = Some sb" and trb: "trace tb = trace ta @ evsB"
    and rows: "(\<forall>out\<in>set (add_outcomes evsB). out = None) \<longrightarrow>
                 st_rows sb = st_rows s0 @ map (ref_embed std_fields) (concat (chunk_loop ?data 0))"
    by blast
  have "\<exists>pre. trace tc = trace tb @ pre \<and> add_outcomes pre = [] \<and> table tc = table tb"
    using tc
  proof
    assume "tc = tb"
    then show ?thesis by (intro exI [of _ "[]"]) simp
  next
    assume "tc = tb\<lparr>trace := trace tb @ [Progress 1]\<rparr>"
    then show ?thesis by (intro exI [of _ "[Progress 1]"]) simp
  qed
  then obtain pre where pre: "trace tc = trace tb @ pre" "add_outcomes pre = []"
    and tc_table: "table tc = table tb"
    by blast
  have tc_sb: "table tc = Some sb" using tc_table sb by simp
  have t1: "t1 = tc\<lparr>trace := trace tc @ [Store CountRows None]\<rparr>"
    using cnt unfolding ref_countRows_result [OF tc_sb] by simp
  have t1_table: "table t1 = Some sb" using tc_sb by (simp add: t1)
  have "trace t1 = trace t0 @ (evsA @ evsB @ pre @ [Store CountRows None])"
    by (simp add: t1 pre(1) trb ta)
  then have "new_events t0 t1 = evsA @ evsB @ pre @ [Store CountRows None]"
    by (rule new_events_append)
  then have "add_outcomes (new_events t0 t1) = add_outcomes evsB"
    by (simp add: add_outcomes_append evsA pre(2))
  then have "\<forall>out\<in>set (add_outcomes evsB). out = None" using assms(3) by simp
  then have rows1: "st_rows sb = st_rows s0 @ map (ref_embed std_fields) ?data"
    using rows by (simp add: concat_chunk_loop)
  have p1: "notepaths (materialize std_fields (st_rows s0)) = Inr paths"
    using paths by (simp add: arr)
  from ref_getTableAsArray [OF t1_table, of std_fields] obtain evs2 where
    gta2: "getTableAsArray ?L std_fields t1 =
             (Inr (materialize std_fields (st_rows sb)), t1\<lparr>trace := trace t1 @ evs2\<rparr>)"
    and evs2: "store_adds evs2 = []"
    by blast
  from second_materialisation(1) [OF p1 rows1] obtain paths2 where
    p2: "notepaths (materialize std_fields (st_rows sb)) = Inr paths2" ..
  have none_missing: "missing_records readFileSync clock' ps files = []"
    if "notepaths (materialize std_fields (st_rows sb)) = Inr ps" for ps
    using second_materialisation(2) [OF p1 rows1 that] .
  have tr2: "trace (t1\<lparr>trace := trace t1 @ evs2\<rparr>) = trace t1 @ evs2" by simp
  have "store_adds (new_events t1
          (snd (maybeRePopulateTable ?L std_fields GetFilesInfoList readFileSync clock' t1 dir exts
                  onProgress'))) = []"
    using maybeRePopulateTable_nothing_missing [where GetFilesInfoList = GetFilesInfoList
        and dir = dir and exts = exts and readFileSync = readFileSync and clock = clock',
        OF files gta2 tr2 evs2 none_missing] .
  then have "store_adds (new_events t1 t2) = []" unfolding assms(4) by simp
  moreover have "missing_records readFileSync clock' paths2 files = []"
    using p2 by (rule none_missing)
  ultimately show ?thesis using files gta2 p2 by blast
qed


theorem maybeRePopulateTable_second_run_witness:
  "fst first_run = Inr () \<and>
   store_adds (new_events (ref_table [good_row] []) (snd first_run)) = [[bad_row]] \<and>
   add_outcomes (new_events (ref_table [good_row] []) (snd first_run)) = [None] \<and>
   store_adds (new_events (snd first_run) (snd second_run)) = []"
proof -
  have h1: "table (ref_table [good_row] []) = Some \<lparr>st_rows = [good_row], st_failures = []\<rparr>"
    by (simp add: ref_table_def)
  have r1: "fst first_run = Inr ()" by code_simp
  have w1: "store_adds (new_events (ref_table [good_row] []) (snd first_run)) = [[bad_row]]"
    by code_simp
  have o1: "add_outcomes (new_events (ref_table [good_row] []) (snd first_run)) = [None]"
    by code_simp
  have h2: "maybeRePopulateTable (ref_lance std_fields) std_fields demo_lister
                 demo_readFileSync demo_clock (ref_table [good_row] []) ''notes'' [''.md''] None =
              (Inr (), snd first_run)"
    using r1 by (simp add: first_run_def prod_eq_iff)
  have h3: "\<forall>out\<in>set (add_outcomes (new_events (ref_table [good_row] []) (snd first_run))).
              out = None"
    by (simp add: o1)
  have h4: "maybeRePopulateTable (ref_lance std_fields) std_fields demo_lister
                  demo_readFileSync demo_clock (snd first_run) ''notes'' [''.md''] None =
              (fst second_run, snd second_run)"
    by (simp add: second_run_def)
  show ?thesis
    using maybeRePopulateTable_second_run [OF h1 h2 h3 h4] r1 w1 o1 by simp
qed

end
